theory Spec2Isabelle
  imports Complex_Main
begin

section \<open>Speaker diarization pipeline: change points, segments, speaker clustering\<close>

text \<open>
  Shallow embedding of the C++ sources \<^verbatim>\<open>speaker-embedder.cpp\<close>,
  \<^verbatim>\<open>speaker-segmenter.cpp\<close>, \<^verbatim>\<open>diarize-cli.cpp\<close> and of
  \<^verbatim>\<open>Utils::Math::find_peaks\<close> in \<^verbatim>\<open>utils.cpp\<close>.

  Conventions of the embedding.
  \<^item> A C++ \<^verbatim>\<open>float\<close> is a \<^typ>\<open>real\<close>: arithmetic and comparisons are exact, there is no
    rounding, no infinity and no NaN. Constants such as \<^verbatim>\<open>0.8f\<close> are the decimal they
    are written as. Two places go further, because the result depends on it: the threshold
    that \<^verbatim>\<open>main\<close> parses may be a NaN or an infinity, and the fixed-window fallback of
    \<^verbatim>\<open>create_segments\<close> has a second model that rounds every operation to binary32.
  \<^item> A \<^verbatim>\<open>std::vector\<close> is a list, \<^verbatim>\<open>size_t\<close> indices are natural numbers, an
    \<^verbatim>\<open>int\<close> is an \<^typ>\<open>int\<close>. Where the source subtracts on \<^verbatim>\<open>size_t\<close>, or
    converts between \<^verbatim>\<open>int\<close> and \<^verbatim>\<open>size_t\<close> on a value that can be out of range,
    the wrap-around is written out. Counters that only grow by one per call
    (\<^verbatim>\<open>speaker_counts_\<close>, vector sizes) are taken below \<open>2 ^ 31\<close>.
  \<^item> Undefined behaviour that a result depends on (a read past the end of a vector, an
    integer division by zero) is a fault value of the model.
  \<^item> Member state that a method mutates is passed in and returned.
  \<^item> The two ONNX sessions are external: their outputs are parameters of the model.
  \<^item> Console output (the \<^verbatim>\<open>verbose_\<close> branches) is left out; it changes no result.
\<close>

subsection \<open>Conversions to \<^verbatim>\<open>size_t\<close>\<close>

text \<open>
  \<^verbatim>\<open>static_cast<size_t>\<close> of a non-negative \<^verbatim>\<open>float\<close> truncates. The times that reach
  it are non-negative whenever the sample rate is positive and the change points are
  non-negative.
\<close>

definition to_size_t :: "real \<Rightarrow> nat" where
  "to_size_t x = nat \<lfloor>x\<rfloor>"

text \<open>An \<^verbatim>\<open>int\<close> converted to \<^verbatim>\<open>size_t\<close> is taken modulo \<open>2 ^ 64\<close>.\<close>

definition size_t_of_int :: "int \<Rightarrow> nat" where
  "size_t_of_int z = nat (z mod 2 ^ 64)"

text \<open>\<^verbatim>\<open>static_cast<int>\<close> of a \<^verbatim>\<open>size_t\<close> keeps the low 32 bits, read as signed.\<close>

definition int_of_size_t :: "nat \<Rightarrow> int" where
  "int_of_size_t n = (int n + 2 ^ 31) mod 2 ^ 32 - 2 ^ 31"

subsection \<open>Speaker clustering state (\<^verbatim>\<open>speaker-embedder.cpp\<close>)\<close>

text \<open>
  The two member vectors of \<^verbatim>\<open>SpeakerEmbedder\<close> that hold the clustering state. The
  profile with id \<open>i\<close> is position \<open>i\<close> of both vectors.
\<close>

record SpeakerEmbedder =
  speaker_centroids :: "real list list"
  speaker_counts :: "int list"

definition new_embedder :: SpeakerEmbedder where
  "new_embedder = \<lparr>speaker_centroids = [], speaker_counts = []\<rparr>"

text \<open>\<^verbatim>\<open>cosine_similarity\<close>: the clipped dot product; 0 on empty or unequal lengths.\<close>

definition cosine_similarity :: "real list \<Rightarrow> real list \<Rightarrow> real" where
  "cosine_similarity a b =
     (if length a \<noteq> length b \<or> a = [] then 0
      else let dot_product = foldl (\<lambda>d i. d + a ! i * b ! i) 0 [0..<length a]
           in max (- 1) (min 1 dot_product))"

text \<open>\<^verbatim>\<open>normalize_embedding\<close>: divide by the L2 norm when the norm exceeds \<open>1e-6\<close>.\<close>

definition normalize_embedding :: "real list \<Rightarrow> real list" where
  "normalize_embedding embedding =
     (if embedding = [] then embedding
      else let norm = sqrt (foldl (\<lambda>n val. n + val * val) 0 embedding)
           in if norm > 0.000001 then map (\<lambda>val. val / norm) embedding else embedding)"

text \<open>
  \<^verbatim>\<open>update_speaker_centroid\<close>: running mean over the common prefix of centroid and
  embedding, count increment, re-normalisation. An id outside the profile vector changes
  nothing. Both vectors have the same length in every state the class can reach (lemma
  \<open>find_or_create_speaker_counts\<close> below), so the read of the count is in range.
\<close>

definition update_speaker_centroid :: "int \<Rightarrow> real list \<Rightarrow> SpeakerEmbedder \<Rightarrow> SpeakerEmbedder" where
  "update_speaker_centroid speaker_id embedding s =
     (if speaker_id < 0 \<or> length (speaker_centroids s) \<le> nat speaker_id then s
      else let centroid = speaker_centroids s ! nat speaker_id;
               count = speaker_counts s ! nat speaker_id;
               centroid' = map (\<lambda>i. if i < length embedding
                                     then (centroid ! i * real_of_int count + embedding ! i) / real_of_int (count + 1)
                                     else centroid ! i) [0..<length centroid]
           in s\<lparr>speaker_centroids := (speaker_centroids s)[nat speaker_id := normalize_embedding centroid'],
                speaker_counts := (speaker_counts s)[nat speaker_id := count + 1]\<rparr>)"

text \<open>
  The scan of \<^verbatim>\<open>find_or_create_speaker\<close> over the existing centroids: it carries
  \<^verbatim>\<open>(best_similarity, best_speaker)\<close>, starts at \<open>(-1, -1)\<close> and replaces the pair only on
  a strictly larger similarity.
\<close>

definition best_match :: "real list \<Rightarrow> real list list \<Rightarrow> real \<times> int" where
  "best_match embedding centroids =
     foldl (\<lambda>(best_similarity, best_speaker) i.
              let similarity = cosine_similarity embedding (centroids ! i)
              in if similarity > best_similarity then (similarity, int i)
                 else (best_similarity, best_speaker))
           (- 1, - 1) [0..<length centroids]"

text \<open>
  \<^verbatim>\<open>find_or_create_speaker\<close> returns the speaker id and the new state. The cast
  \<^verbatim>\<open>static_cast<int>(speaker_centroids_.size())\<close> is exact for fewer than \<open>2 ^ 31\<close>
  profiles.
\<close>

definition find_or_create_speaker ::
  "real list \<Rightarrow> real \<Rightarrow> int \<Rightarrow> SpeakerEmbedder \<Rightarrow> int \<times> SpeakerEmbedder" where
  "find_or_create_speaker embedding threshold max_speakers s =
     (let (best_similarity, best_speaker) = best_match embedding (speaker_centroids s)
      in if best_similarity > threshold \<and> best_speaker \<ge> 0
         then (best_speaker, update_speaker_centroid best_speaker embedding s)
         else if int (length (speaker_centroids s)) < max_speakers
         then let s' = s\<lparr>speaker_centroids := speaker_centroids s @ [embedding],
                         speaker_counts := speaker_counts s @ [1]\<rparr>
              in (int (length (speaker_centroids s') - 1), s')
         else if best_speaker \<ge> 0
         then (best_speaker, update_speaker_centroid best_speaker embedding s)
         else (0, s))"

definition calculate_confidence :: "real list \<Rightarrow> int \<Rightarrow> SpeakerEmbedder \<Rightarrow> real" where
  "calculate_confidence embedding speaker_id s =
     (if speaker_id < 0 \<or> length (speaker_centroids s) \<le> nat speaker_id then 0.5
      else let similarity = cosine_similarity embedding (speaker_centroids s ! nat speaker_id)
           in (similarity + 1) / 2)"

definition reset_speakers :: "SpeakerEmbedder \<Rightarrow> SpeakerEmbedder" where
  "reset_speakers s = s\<lparr>speaker_centroids := [], speaker_counts := []\<rparr>"

text \<open>
  One step of the scan above, named so that the loop invariant can be stated on it.
\<close>

definition scan_step :: "real list \<Rightarrow> real list list \<Rightarrow> real \<times> int \<Rightarrow> nat \<Rightarrow> real \<times> int" where
  "scan_step embedding centroids = (\<lambda>(best_similarity, best_speaker) i.
              let similarity = cosine_similarity embedding (centroids ! i)
              in if similarity > best_similarity then (similarity, int i)
                 else (best_similarity, best_speaker))"

text \<open>
  A sequence of \<^verbatim>\<open>find_or_create_speaker\<close> calls on one embedder, all with the same
  \<^verbatim>\<open>max_speakers\<close>; each call has its own embedding and threshold. The result is the list
  of returned ids and the final state.
\<close>

fun find_or_create_all ::
  "(real list \<times> real) list \<Rightarrow> int \<Rightarrow> SpeakerEmbedder \<Rightarrow> int list \<times> SpeakerEmbedder" where
  "find_or_create_all [] max_speakers s = ([], s)"
| "find_or_create_all ((embedding, threshold) # calls) max_speakers s =
     (let (speaker_id, s1) = find_or_create_speaker embedding threshold max_speakers s;
          (ids, s2) = find_or_create_all calls max_speakers s1
      in (speaker_id # ids, s2))"

text \<open>
  The premise of the capacity scenario: every embedding of the sequence, when its turn
  comes, has similarity below the threshold to every centroid stored at that moment.
\<close>

fun below_at_every_turn :: "real list list \<Rightarrow> real \<Rightarrow> int \<Rightarrow> SpeakerEmbedder \<Rightarrow> bool" where
  "below_at_every_turn [] threshold max_speakers s = True"
| "below_at_every_turn (e # es) threshold max_speakers s =
     ((\<forall>c \<in> set (speaker_centroids s). cosine_similarity e c < threshold) \<and>
      below_at_every_turn es threshold max_speakers
        (snd (find_or_create_speaker e threshold max_speakers s)))"

subsection \<open>Threshold validation in \<^verbatim>\<open>main\<close> (\<^verbatim>\<open>diarize-cli.cpp\<close>, lines 241-250)\<close>

text \<open>
  The threshold comes from \<^verbatim>\<open>std::stof\<close>, which also accepts \<^verbatim>\<open>nan\<close> and
  \<^verbatim>\<open>inf\<close>: the parsed value is a NaN, an infinity or a finite number. The constants
  \<open>0.8\<close>, \<open>0.7\<close> and \<open>0.01\<close> stand for the literals \<^verbatim>\<open>0.8f\<close>, \<^verbatim>\<open>0.7f\<close> and \<^verbatim>\<open>0.01f\<close> of the
  source.
\<close>

datatype float_value = NaN | MinusInfinity | Finite real | PlusInfinity

text \<open>
  The comparisons \<^verbatim>\<open>x > c\<close> and \<^verbatim>\<open>x < c\<close> of a \<^verbatim>\<open>float\<close> with a finite constant.
  Every comparison with a NaN is false.
\<close>

definition float_gt :: "float_value \<Rightarrow> real \<Rightarrow> bool" where
  "float_gt x c =
     (case x of NaN \<Rightarrow> False | MinusInfinity \<Rightarrow> False | Finite r \<Rightarrow> r > c
              | PlusInfinity \<Rightarrow> True)"

definition float_lt :: "float_value \<Rightarrow> real \<Rightarrow> bool" where
  "float_lt x c =
     (case x of NaN \<Rightarrow> False | MinusInfinity \<Rightarrow> True | Finite r \<Rightarrow> r < c
              | PlusInfinity \<Rightarrow> False)"

text \<open>The two consecutive \<^verbatim>\<open>if\<close> statements that rewrite \<^verbatim>\<open>options.threshold\<close>.\<close>

definition main_validate_threshold :: "float_value \<Rightarrow> float_value" where
  "main_validate_threshold threshold =
     (let t1 = (if float_gt threshold 0.8 then Finite 0.7 else threshold);
          t2 = (if float_lt t1 0.01 then Finite 0.01 else t1)
      in t2)"

subsection \<open>Peak finding (\<^verbatim>\<open>Utils::Math::find_peaks\<close>, \<^verbatim>\<open>utils.cpp\<close>)\<close>

text \<open>
  A read past the end of a vector, and an integer division by zero, are undefined
  behaviour in the source; the model returns them as faults.
\<close>

datatype fault = OutOfBounds | DivisionByZero

text \<open>
  The inner loop \<^verbatim>\<open>for (size_t j = i - min_distance; j <= i + min_distance; j++)\<close>:
  \<open>Inr False\<close> at the first \<open>j \<noteq> i\<close> with \<^verbatim>\<open>signal[j] >= signal[i]\<close> (the
  \<^verbatim>\<open>break\<close>), \<open>Inr True\<close> when the loop runs to its end. \<^verbatim>\<open>signal[j]\<close> is read only
  when \<open>j \<noteq> i\<close>, as \<^verbatim>\<open>&&\<close> evaluates.
\<close>

function is_peak_from :: "real list \<Rightarrow> nat \<Rightarrow> nat \<Rightarrow> nat \<Rightarrow> fault + bool" where
  "is_peak_from signal i upper j =
     (if j \<le> upper
      then if j \<noteq> i
           then if length signal \<le> j \<or> length signal \<le> i then Inl OutOfBounds
                else if signal ! j \<ge> signal ! i then Inr False
                else is_peak_from signal i upper (j + 1)
           else is_peak_from signal i upper (j + 1)
      else Inr True)"
  by pat_completeness auto
termination
  by (relation "measure (\<lambda>(signal, i, upper, j). Suc upper - j)") auto

declare is_peak_from.simps [simp del]

text \<open>
  The outer loop \<^verbatim>\<open>for (size_t i = min_distance; i < bound; i++)\<close>, from index \<open>i\<close> on;
  \<^verbatim>\<open>peaks.push_back(i)\<close> puts \<open>i\<close> in front of the peaks found later.
\<close>

function find_peaks_from :: "real list \<Rightarrow> real \<Rightarrow> nat \<Rightarrow> nat \<Rightarrow> nat \<Rightarrow> fault + nat list" where
  "find_peaks_from signal threshold min_distance bound i =
     (if i < bound
      then if length signal \<le> i then Inl OutOfBounds
           else if signal ! i > threshold
           then (case is_peak_from signal i (i + min_distance) (i - min_distance) of
                   Inl f \<Rightarrow> Inl f
                 | Inr is_peak \<Rightarrow>
                     (case find_peaks_from signal threshold min_distance bound (i + 1) of
                        Inl f \<Rightarrow> Inl f
                      | Inr peaks \<Rightarrow> Inr (if is_peak then i # peaks else peaks)))
           else find_peaks_from signal threshold min_distance bound (i + 1)
      else Inr [])"
  by pat_completeness auto
termination
  by (relation "measure (\<lambda>(signal, threshold, min_distance, bound, i). bound - i)") auto

declare find_peaks_from.simps [simp del]

text \<open>
  \<^verbatim>\<open>find_peaks\<close>. The loop bound \<^verbatim>\<open>signal.size() - min_distance\<close> is a \<^verbatim>\<open>size_t\<close>
  subtraction: it wraps modulo \<open>2 ^ 64\<close> when \<^verbatim>\<open>min_distance\<close> exceeds the size. The sum
  \<^verbatim>\<open>i + min_distance\<close> stays below the size wherever the inner loop is reached without a
  fault, so it is not reduced.
\<close>

definition find_peaks :: "real list \<Rightarrow> real \<Rightarrow> nat \<Rightarrow> fault + nat list" where
  "find_peaks signal threshold min_distance =
     (let bound = (if min_distance \<le> length signal then length signal - min_distance
                   else 2 ^ 64 - (min_distance - length signal))
      in find_peaks_from signal threshold min_distance bound min_distance)"

subsection \<open>Change scores of one window (\<^verbatim>\<open>SpeakerSegmenter::process_window\<close>)\<close>

text \<open>
  The output tensor of the segmentation model has shape \<open>[1, time_steps, num_classes]\<close>;
  \<^verbatim>\<open>output_data[t * num_classes + c]\<close> is the score of class \<open>c\<close> at step \<open>t\<close>. The model
  carries it as the triple of \<open>time_steps\<close>, \<open>num_classes\<close> and the flat data.
\<close>

type_synonym segmentation_output = "nat \<times> nat \<times> real list"

text \<open>
  The dominant-class loop over \<open>c = 1, \<dots>, num_classes - 1\<close>. It carries
  \<^verbatim>\<open>(dominant_class, max_logit)\<close>, starts at class 0 and moves only on a strictly larger
  score. \<open>logit c\<close> stands for \<^verbatim>\<open>output_data[t * num_classes + c]\<close>.
\<close>

definition dominant_scan :: "(nat \<Rightarrow> real) \<Rightarrow> nat \<Rightarrow> int \<times> real" where
  "dominant_scan logit num_classes =
     foldl (\<lambda>(dominant_class, max_logit) c.
              if logit c > max_logit then (int c, logit c) else (dominant_class, max_logit))
           (0, logit 0) [1..<num_classes]"

text \<open>
  The change probability of one time step, given the dominant class of the step before
  (\<open>-1\<close> at the first step of the window): softmax with the maximum subtracted, entropy
  over the probabilities above \<open>1e-6\<close>, normalisation by \<open>log(num_classes)\<close>, clipping at 1,
  then doubling and clipping again.
\<close>

definition change_prob :: "(nat \<Rightarrow> real) \<Rightarrow> nat \<Rightarrow> int \<Rightarrow> int \<Rightarrow> real \<Rightarrow> real" where
  "change_prob logit num_classes prev_dominant_class dominant_class max_logit =
     (if prev_dominant_class \<noteq> - 1 \<and> prev_dominant_class \<noteq> dominant_class
      then let sum_exp = foldl (\<lambda>s c. s + exp (logit c - max_logit)) 0 [0..<num_classes];
               entropy = foldl (\<lambda>h c. let prob = exp (logit c - max_logit) / sum_exp
                                       in if prob > 0.000001 then h - prob * ln prob else h)
                               0 [0..<num_classes];
               p = min 1 (entropy / ln (real num_classes))
           in if dominant_class \<noteq> prev_dominant_class then min 1 (p * 2) else p
      else 0)"

text \<open>
  The loop over the time steps of one window. It carries the scores pushed so far and
  \<^verbatim>\<open>prev_dominant_class\<close>, which starts at \<open>-1\<close> for every window.
\<close>

definition change_step :: "nat \<Rightarrow> real list \<Rightarrow> real list \<times> int \<Rightarrow> nat \<Rightarrow> real list \<times> int" where
  "change_step num_classes output_data = (\<lambda>(change_probabilities, prev_dominant_class) t.
     let logit = (\<lambda>c. output_data ! (t * num_classes + c));
         (dominant_class, max_logit) = dominant_scan logit num_classes;
         p = change_prob logit num_classes prev_dominant_class dominant_class max_logit
     in (change_probabilities @ [p], dominant_class))"

definition change_probabilities :: "nat \<Rightarrow> nat \<Rightarrow> real list \<Rightarrow> real list" where
  "change_probabilities time_steps num_classes output_data =
     fst (foldl (change_step num_classes output_data) ([], - 1) [0..<time_steps])"

subsection \<open>The segmenter (\<^verbatim>\<open>speaker-segmenter.cpp\<close>)\<close>

text \<open>
  \<^verbatim>\<open>session_\<close> is \<open>None\<close> before \<^verbatim>\<open>initialize\<close>; afterwards it holds the model: a function
  from the prepared window to the output tensor, \<open>None\<close> when \<^verbatim>\<open>Run\<close> throws. The window
  and hop sizes are the constants both the constructor and \<^verbatim>\<open>initialize\<close> set.
\<close>

record SpeakerSegmenter =
  session :: "(real list \<Rightarrow> segmentation_output option) option"
  segmenter_sample_rate :: int

definition window_size :: nat where
  "window_size = 51200"

definition hop_size :: nat where
  "hop_size = 25600"

definition is_initialized :: "SpeakerSegmenter \<Rightarrow> bool" where
  "is_initialized seg = (session seg \<noteq> None)"

text \<open>
  \<^verbatim>\<open>normalize_audio\<close>: peak normalisation when the peak exceeds \<open>1e-6\<close>, then the
  pre-emphasis loop, which runs from the last index down to 1 and so reads the
  not yet emphasised predecessor.
\<close>

definition normalize_audio :: "real list \<Rightarrow> real list" where
  "normalize_audio audio =
     (if audio = [] then audio
      else let max_val = foldl (\<lambda>m sample. max m \<bar>sample\<bar>) 0 audio;
               scaled = (if max_val > 0.000001 then map (\<lambda>sample. sample / max_val) audio
                         else audio)
           in map (\<lambda>i. if i = 0 then scaled ! i else scaled ! i - 0.97 * scaled ! (i - 1))
                  [0..<length scaled])"

text \<open>
  The first half of \<^verbatim>\<open>process_window\<close>: resize the window to \<^verbatim>\<open>window_size_\<close>
  (truncate or pad with zeros), normalise it and run the model. \<open>None\<close> stands for an
  uninitialised segmenter and for a throwing model.
\<close>

definition run_model :: "SpeakerSegmenter \<Rightarrow> real list \<Rightarrow> segmentation_output option" where
  "run_model seg audio_window =
     (case session seg of
        None \<Rightarrow> None
      | Some run \<Rightarrow>
          (let window = take window_size audio_window
                        @ replicate (window_size - length audio_window) 0
           in run (normalize_audio window)))"

text \<open>
  \<^verbatim>\<open>process_window\<close>: the change scores of the time steps of the model output; the empty
  vector when there is no output.
\<close>

definition process_window :: "SpeakerSegmenter \<Rightarrow> real list \<Rightarrow> real list" where
  "process_window seg audio_window =
     (case run_model seg audio_window of
        None \<Rightarrow> []
      | Some (time_steps, num_classes, output_data) \<Rightarrow>
          change_probabilities time_steps num_classes output_data)"

subsection \<open>Change-point detection (\<^verbatim>\<open>SpeakerSegmenter::detect_change_points\<close>)\<close>

text \<open>
  The start offsets of the sliding windows:
  \<^verbatim>\<open>for (size_t i = 0; i + window_size_ < audio.size(); i += hop_size_)\<close>.
\<close>

function window_starts :: "nat \<Rightarrow> nat \<Rightarrow> nat list" where
  "window_starts n i =
     (if i + window_size < n then i # window_starts n (i + hop_size) else [])"
  by pat_completeness auto
termination
  by (relation "measure (\<lambda>(n, i). n - i)") (auto simp: hop_size_def)

declare window_starts.simps [simp del]

text \<open>
  The scores of the window at offset \<open>i\<close>, each with its timestamp
  \<^verbatim>\<open>static_cast<float>(i + j * (window_size_ / probabilities.size())) / sample_rate_\<close>;
  the inner division is an integer division.
\<close>

definition window_frames :: "SpeakerSegmenter \<Rightarrow> real list \<Rightarrow> nat \<Rightarrow> (real \<times> real) list" where
  "window_frames seg audio i =
     (let probabilities = process_window seg (take window_size (drop i audio))
      in map (\<lambda>j. (probabilities ! j,
                    real (i + j * (window_size div length probabilities))
                    / real_of_int (segmenter_sample_rate seg)))
             [0..<length probabilities])"

definition all_probabilities :: "SpeakerSegmenter \<Rightarrow> real list \<Rightarrow> real list" where
  "all_probabilities seg audio =
     concat (map (\<lambda>i. map fst (window_frames seg audio i)) (window_starts (length audio) 0))"

definition all_timestamps :: "SpeakerSegmenter \<Rightarrow> real list \<Rightarrow> real list" where
  "all_timestamps seg audio =
     concat (map (\<lambda>i. map snd (window_frames seg audio i)) (window_starts (length audio) 0))"

text \<open>
  The inline peak scan: the indices \<open>i\<close> from 1 to \<open>size - 2\<close> whose score exceeds the
  threshold and both neighbours. It runs only on a non-empty vector, so
  \<^verbatim>\<open>size() - 1\<close> does not wrap.
\<close>

definition inline_peaks :: "real list \<Rightarrow> real \<Rightarrow> nat list" where
  "inline_peaks probabilities adaptive_threshold =
     filter (\<lambda>i. probabilities ! i > adaptive_threshold
                 \<and> probabilities ! i > probabilities ! (i - 1)
                 \<and> probabilities ! i > probabilities ! (i + 1))
            [1..<length probabilities - 1]"

text \<open>The adaptive threshold and the timestamps of the peaks above it.\<close>

definition detected_points :: "real list \<Rightarrow> real list \<Rightarrow> real \<Rightarrow> real list" where
  "detected_points probabilities timestamps detection_threshold =
     (if probabilities \<noteq> []
      then let max_prob = Max (set probabilities);
               mean_prob = foldl (\<lambda>m p. m + p) 0 probabilities / real (length probabilities);
               adaptive_threshold =
                 max detection_threshold (mean_prob + 2 * (max_prob - mean_prob) * 0.1)
           in map (\<lambda>i. timestamps ! i) (inline_peaks probabilities adaptive_threshold)
      else [])"

text \<open>
  The artificial change points for long audio without peaks:
  \<^verbatim>\<open>for (float t = 30.0f; t < duration - 10.0f; t += 30.0f)\<close>.
\<close>

function artificial_points :: "real \<Rightarrow> real \<Rightarrow> real list" where
  "artificial_points duration t =
     (if t < duration - 10 then t # artificial_points duration (t + 30) else [])"
  by pat_completeness auto
termination
proof (relation "measure (\<lambda>(duration, t). nat \<lceil>(duration - 10 - t) / 30\<rceil>)")
  show "wf (measure (\<lambda>(duration, t). nat \<lceil>(duration - 10 - t) / 30\<rceil>))"
    by simp
next
  fix duration t :: real
  assume lt: "t < duration - 10"
  have step: "(duration - 10 - (t + 30)) / 30 = (duration - 10 - t) / 30 - 1"
    by (simp add: field_simps)
  have pos: "0 < \<lceil>(duration - 10 - t) / 30\<rceil>"
    using lt by (simp add: less_ceiling_iff)
  have "\<lceil>(duration - 10 - (t + 30)) / 30\<rceil> = \<lceil>(duration - 10 - t) / 30\<rceil> - 1"
    unfolding step by (simp add: ceiling_diff_one)
  then show "((duration, t + 30), (duration, t))
             \<in> measure (\<lambda>(duration, t). nat \<lceil>(duration - 10 - t) / 30\<rceil>)"
    using pos by simp
qed

declare artificial_points.simps [simp del]

text \<open>
  \<^verbatim>\<open>std::unique\<close> with a binary predicate, as the standard library implements it: the
  first element is kept, and each later element is kept exactly when the predicate does not
  relate the last kept element to it.
\<close>

fun unique_from :: "('a \<Rightarrow> 'a \<Rightarrow> bool) \<Rightarrow> 'a \<Rightarrow> 'a list \<Rightarrow> 'a list" where
  "unique_from pred kept [] = []"
| "unique_from pred kept (x # xs) =
     (if pred kept x then unique_from pred kept xs else x # unique_from pred x xs)"

fun std_unique :: "('a \<Rightarrow> 'a \<Rightarrow> bool) \<Rightarrow> 'a list \<Rightarrow> 'a list" where
  "std_unique pred [] = []"
| "std_unique pred (x # xs) = x # unique_from pred x xs"

text \<open>
  The change points before sorting and deduplication: the detected peaks, or the
  artificial points when there is no peak and the audio has more than
  \<^verbatim>\<open>sample_rate_ * 10\<close> samples.
\<close>

definition candidate_points :: "SpeakerSegmenter \<Rightarrow> real list \<Rightarrow> real \<Rightarrow> real list" where
  "candidate_points seg audio threshold =
     (let detection_threshold = max 0.01 (threshold * 0.1);
          change_points = detected_points (all_probabilities seg audio) (all_timestamps seg audio)
                            detection_threshold
      in if change_points = [] \<and> length audio > size_t_of_int (segmenter_sample_rate seg * 10)
         then artificial_points (real (length audio) / real_of_int (segmenter_sample_rate seg)) 30
         else change_points)"

text \<open>
  \<^verbatim>\<open>detect_change_points\<close>: empty for an uninitialised segmenter, otherwise the candidates
  sorted and passed through \<^verbatim>\<open>std::unique\<close> with the predicate
  \<^verbatim>\<open>std::abs(a - b) < 1.0f\<close>. The outer \<^verbatim>\<open>catch\<close> of the function also returns the empty
  vector; nothing in the model throws there, since \<^verbatim>\<open>process_window\<close> catches the
  exceptions of the model run itself.
\<close>

definition detect_change_points :: "SpeakerSegmenter \<Rightarrow> real list \<Rightarrow> real \<Rightarrow> real list" where
  "detect_change_points seg audio threshold =
     (if \<not> is_initialized seg then []
      else std_unique (\<lambda>a b. \<bar>a - b\<bar> < 1) (sort (candidate_points seg audio threshold)))"

subsection \<open>The scoring rule in the specification's terms\<close>

text \<open>The class-score vector of time step \<open>t\<close> in an output tensor.\<close>

definition class_scores :: "nat \<Rightarrow> real list \<Rightarrow> nat \<Rightarrow> real list" where
  "class_scores num_classes output_data t =
     map (\<lambda>c. output_data ! (t * num_classes + c)) [0..<num_classes]"

text \<open>The argmax of a score vector, ties broken by the lowest class index.\<close>

definition spec_dominant_class :: "real list \<Rightarrow> nat" where
  "spec_dominant_class v = length (takeWhile (\<lambda>x. x \<noteq> Max (set v)) v)"

text \<open>
  \<open>d\<close> is the first index below \<open>n\<close> at which \<open>f\<close> is maximal: the invariant of the
  dominant-class loop.
\<close>

definition first_max :: "(nat \<Rightarrow> real) \<Rightarrow> nat \<Rightarrow> nat \<Rightarrow> bool" where
  "first_max f n d \<longleftrightarrow> d < n \<and> (\<forall>c<n. f c \<le> f d) \<and> (\<forall>c<d. f c < f d)"

text \<open>The softmax, with the maximal score subtracted before exponentiating.\<close>

definition spec_softmax :: "real list \<Rightarrow> real list" where
  "spec_softmax v =
     (let m = Max (set v); z = (\<Sum>x\<leftarrow>v. exp (x - m)) in map (\<lambda>x. exp (x - m) / z) v)"

text \<open>The Shannon entropy of a probability vector.\<close>

definition shannon_entropy :: "real list \<Rightarrow> real" where
  "shannon_entropy p = - (\<Sum>x\<leftarrow>p. x * ln x)"

text \<open>The entropy sum restricted to the probabilities above \<open>1e-6\<close>.\<close>

definition pruned_entropy :: "real list \<Rightarrow> real" where
  "pruned_entropy p = - (\<Sum>x\<leftarrow>p. if x > 0.000001 then x * ln x else 0)"

text \<open>
  The rule as the specification words it, on the stream of the class-score vectors of all
  windows of a buffer: 0 at the first frame of the stream and where the dominant class
  repeats, otherwise the doubled, clipped normalised Shannon entropy.
\<close>

definition spec_change_score :: "real list list \<Rightarrow> nat \<Rightarrow> real" where
  "spec_change_score stream t =
     (if t = 0 \<or> spec_dominant_class (stream ! t) = spec_dominant_class (stream ! (t - 1))
      then 0
      else min 1 (2 * (shannon_entropy (spec_softmax (stream ! t))
                       / ln (real (length (stream ! t))))))"

text \<open>
  The rule per window: 0 at the first frame of the window and where the dominant class
  repeats within the window, otherwise the doubled, clipped normalised pruned entropy.
\<close>

definition window_change_score :: "nat \<Rightarrow> real list \<Rightarrow> nat \<Rightarrow> real" where
  "window_change_score num_classes output_data t =
     (if t = 0 \<or> spec_dominant_class (class_scores num_classes output_data t)
                  = spec_dominant_class (class_scores num_classes output_data (t - 1))
      then 0
      else min 1 (2 * (pruned_entropy (spec_softmax (class_scores num_classes output_data t))
                       / ln (real num_classes))))"

text \<open>
  The model outputs of the windows of a buffer, in window order, and the stream of their
  class-score vectors.
\<close>

definition window_outputs :: "SpeakerSegmenter \<Rightarrow> real list \<Rightarrow> segmentation_output list" where
  "window_outputs seg audio =
     concat (map (\<lambda>i. case run_model seg (take window_size (drop i audio)) of
                         None \<Rightarrow> [] | Some out \<Rightarrow> [out])
                 (window_starts (length audio) 0))"

definition frame_stream :: "segmentation_output list \<Rightarrow> real list list" where
  "frame_stream outputs =
     concat (map (\<lambda>(time_steps, num_classes, output_data).
                    map (class_scores num_classes output_data) [0..<time_steps]) outputs)"

text \<open>The predicate of the deduplication: two timestamps less than one second apart.\<close>

abbreviation within_one :: "real \<Rightarrow> real \<Rightarrow> bool" where
  "within_one \<equiv> (\<lambda>a b. \<bar>a - b\<bar> < 1)"

text \<open>
  A segmenter for examples: its model answers every window with three time steps of two
  classes, with the dominant classes 1, 0, 0 and a tie at the second step.
\<close>

definition demo_segmenter :: SpeakerSegmenter where
  "demo_segmenter = \<lparr>session = Some (\<lambda>window. Some (3, 2, [0, 1, 0, 0, 1, 0])),
                      segmenter_sample_rate = 16000\<rparr>"

text \<open>
  A second segmenter for examples: its model answers a window with one time step of two
  classes, class 1 dominant when the prepared window starts with a non-zero sample, a tie
  (class 0 dominant) when it starts with zero.
\<close>

definition onset_segmenter :: SpeakerSegmenter where
  "onset_segmenter =
     \<lparr>session = Some (\<lambda>window. if window ! 0 = 0 then Some (1, 2, [0, 0])
                               else Some (1, 2, [0, 1])),
      segmenter_sample_rate = 16000\<rparr>"

subsection \<open>Options and segments (\<^verbatim>\<open>diarize-cli.h\<close>)\<close>

text \<open>
  The fields of \<^verbatim>\<open>DiarizeOptions\<close> that the pipeline reads, and \<^verbatim>\<open>AudioSegment\<close>.
  \<^verbatim>\<open>create_segments\<close> leaves \<^verbatim>\<open>speaker_id\<close> and \<^verbatim>\<open>confidence\<close> uninitialised;
  that is the value \<open>None\<close>, and \<^verbatim>\<open>assign_speakers\<close> fills them in.
\<close>

record DiarizeOptions =
  max_speakers :: int
  threshold :: real
  sample_rate :: int

record AudioSegment =
  samples :: "real list"
  start_time :: real
  end_time :: real
  speaker_id :: "int option"
  confidence :: "real option"
  segment_text :: string

subsection \<open>Building segments (\<^verbatim>\<open>DiarizationEngine::create_segments\<close>)\<close>

text \<open>
  The block that both loops of \<^verbatim>\<open>create_segments\<close> share: compute the sample range of
  \<open>[start, end)\<close> and push the segment only when the range lies inside the buffer and is not
  empty. The result is the list of segments pushed: one or none.
\<close>

definition push_segment :: "real list \<Rightarrow> DiarizeOptions \<Rightarrow> real \<Rightarrow> real \<Rightarrow> AudioSegment list" where
  "push_segment audio options start end =
     (let start_sample = to_size_t (start * real_of_int (sample_rate options));
          end_sample = to_size_t (end * real_of_int (sample_rate options))
      in if end_sample \<le> length audio \<and> start_sample < end_sample
         then [\<lparr>samples = take (end_sample - start_sample) (drop start_sample audio),
                start_time = start, end_time = end,
                speaker_id = None, confidence = None, segment_text = ''''\<rparr>]
         else [])"

text \<open>
  The fixed-window loop for long audio without change points:
  \<^verbatim>\<open>for (float start = 0.0f; start < total_duration - 5.0f; start += segment_duration)\<close>
  with \<^verbatim>\<open>segment_duration = 25.0f\<close>.
\<close>

function fixed_segments :: "real list \<Rightarrow> DiarizeOptions \<Rightarrow> real \<Rightarrow> real \<Rightarrow> AudioSegment list" where
  "fixed_segments audio options total_duration start =
     (if start < total_duration - 5
      then let end = min (start + 25) total_duration
           in push_segment audio options start end
              @ fixed_segments audio options total_duration (start + 25)
      else [])"
  by pat_completeness auto
termination
proof (relation "measure (\<lambda>(audio, options, total_duration, start).
                   nat \<lceil>(total_duration - 5 - start) / 25\<rceil>)")
  show "wf (measure (\<lambda>(audio, options, total_duration, start).
                   nat \<lceil>(total_duration - 5 - start) / 25\<rceil>))"
    by simp
next
  fix audio :: "real list" and options :: DiarizeOptions
    and total_duration start x :: real
  assume lt: "start < total_duration - 5"
  have step: "(total_duration - 5 - (start + 25)) / 25 = (total_duration - 5 - start) / 25 - 1"
    by (simp add: field_simps)
  have pos: "0 < \<lceil>(total_duration - 5 - start) / 25\<rceil>"
    using lt by (simp add: less_ceiling_iff)
  have "\<lceil>(total_duration - 5 - (start + 25)) / 25\<rceil> = \<lceil>(total_duration - 5 - start) / 25\<rceil> - 1"
    unfolding step by (simp add: ceiling_diff_one)
  then show "((audio, options, total_duration, start + 25),
              (audio, options, total_duration, start))
             \<in> measure (\<lambda>(audio, options, total_duration, start).
                   nat \<lceil>(total_duration - 5 - start) / 25\<rceil>)"
    using pos by simp
qed

declare fixed_segments.simps [simp del]

text \<open>
  The loop over consecutive pairs of \<^verbatim>\<open>boundaries\<close>; a pair closer than 2 seconds is
  skipped.
\<close>

fun boundary_segments :: "real list \<Rightarrow> DiarizeOptions \<Rightarrow> real list \<Rightarrow> AudioSegment list" where
  "boundary_segments audio options (start # end # rest) =
     (if end - start < 2 then [] else push_segment audio options start end)
     @ boundary_segments audio options (end # rest)"
| "boundary_segments audio options boundaries = []"

text \<open>
  \<^verbatim>\<open>create_segments\<close> in exact arithmetic, for a non-zero sample rate. The sample indices
  and the duration are the exact products and quotient here; in the program they are
  rounded, which can move an index by one and, for long buffers, the last index past the
  end of the buffer. The model in single precision follows below.
\<close>

definition create_segments :: "real list \<Rightarrow> real list \<Rightarrow> DiarizeOptions \<Rightarrow> AudioSegment list" where
  "create_segments audio change_points options =
     (let total_duration = real (length audio) / real_of_int (sample_rate options)
      in if change_points = []
         then (if total_duration > 30
               then fixed_segments audio options total_duration 0
               else [\<lparr>samples = audio, start_time = 0, end_time = total_duration,
                      speaker_id = None, confidence = None, segment_text = ''''\<rparr>])
         else boundary_segments audio options ([0] @ change_points @ [total_duration]))"

subsection \<open>Embedding extraction (\<^verbatim>\<open>SpeakerEmbedder::extract_embedding\<close>)\<close>

text \<open>
  The members of \<^verbatim>\<open>SpeakerEmbedder\<close> that extraction reads: the session (\<open>None\<close> before
  \<^verbatim>\<open>initialize\<close>, afterwards the model: a function from the prepared samples to the raw
  output, \<open>None\<close> when \<^verbatim>\<open>Run\<close> throws), \<^verbatim>\<open>target_length_\<close> and \<^verbatim>\<open>embedding_dim_\<close>.
\<close>

record EmbeddingModel =
  embedding_session :: "(real list \<Rightarrow> real list option) option"
  target_length :: nat
  embedding_dim :: nat

text \<open>\<^verbatim>\<open>prepare_audio_segment\<close>: truncate or zero-pad to the target length, peak-normalise.\<close>

definition prepare_audio_segment :: "EmbeddingModel \<Rightarrow> real list \<Rightarrow> real list" where
  "prepare_audio_segment model audio =
     (let prepared = take (target_length model) audio
                     @ replicate (target_length model - length audio) 0;
          max_val = foldl (\<lambda>m sample. max m \<bar>sample\<bar>) 0 prepared
      in if max_val > 0.000001 then map (\<lambda>sample. sample / max_val) prepared else prepared)"

text \<open>
  \<^verbatim>\<open>extract_embedding\<close>: the first \<^verbatim>\<open>embedding_dim_\<close> outputs of the model, normalised
  to unit length. Without a session, and when the model throws, the result is the zero
  vector: the function catches every \<^verbatim>\<open>std::exception\<close> of the model itself.
\<close>

definition extract_embedding :: "EmbeddingModel \<Rightarrow> real list \<Rightarrow> real list" where
  "extract_embedding model audio_segment =
     (case embedding_session model of
        None \<Rightarrow> replicate (embedding_dim model) 0
      | Some run \<Rightarrow>
          (case run (prepare_audio_segment model audio_segment) of
             None \<Rightarrow> replicate (embedding_dim model) 0
           | Some output_data \<Rightarrow> normalize_embedding (take (embedding_dim model) output_data)))"

subsection \<open>Speaker assignment (\<^verbatim>\<open>DiarizationEngine::assign_speakers\<close>)\<close>

text \<open>
  The loop over the segments, from index \<open>i\<close> on. \<open>throws i\<close> says that a
  \<^verbatim>\<open>std::exception\<close> leaves the \<^verbatim>\<open>try\<close> block of segment \<open>i\<close> before the speaker
  profiles are touched: the model's own exceptions are caught inside
  \<^verbatim>\<open>extract_embedding\<close>, what remains is a failure of the environment such as
  \<^verbatim>\<open>std::bad_alloc\<close>. The handler computes \<^verbatim>\<open>static_cast<int>(i % options.max_speakers)\<close>
  on \<^verbatim>\<open>size_t\<close>: \<^verbatim>\<open>max_speakers\<close> is converted to \<^verbatim>\<open>size_t\<close>, and a zero divisor is a
  division by zero, which no \<^verbatim>\<open>catch\<close> intercepts.
\<close>

fun assign_from ::
  "EmbeddingModel \<Rightarrow> (nat \<Rightarrow> bool) \<Rightarrow> DiarizeOptions \<Rightarrow> real \<Rightarrow> nat \<Rightarrow> AudioSegment list
     \<Rightarrow> SpeakerEmbedder \<Rightarrow> fault + (AudioSegment list \<times> SpeakerEmbedder)" where
  "assign_from model throws options assignment_threshold i [] s = Inr ([], s)"
| "assign_from model throws options assignment_threshold i (segment # rest) s =
     (if throws i
      then (if size_t_of_int (max_speakers options) = 0 then Inl DivisionByZero
            else let segment' = segment
                       \<lparr>speaker_id := Some (int_of_size_t (i mod size_t_of_int (max_speakers options))),
                        confidence := Some 0.5\<rparr>
                 in case assign_from model throws options assignment_threshold (i + 1) rest s of
                      Inl f \<Rightarrow> Inl f
                    | Inr (segments, s') \<Rightarrow> Inr (segment' # segments, s'))
      else let embedding = extract_embedding model (samples segment);
               (sid, s1) = find_or_create_speaker embedding assignment_threshold
                             (max_speakers options) s;
               segment' = segment
                 \<lparr>speaker_id := Some sid,
                  confidence := Some (calculate_confidence embedding sid s1)\<rparr>
           in case assign_from model throws options assignment_threshold (i + 1) rest s1 of
                Inl f \<Rightarrow> Inl f
              | Inr (segments, s') \<Rightarrow> Inr (segment' # segments, s'))"

text \<open>
  \<^verbatim>\<open>assign_speakers\<close>: the segments unchanged when the embedder has no session,
  otherwise the loop with the assignment threshold \<^verbatim>\<open>std::max(0.3f, options.threshold)\<close>.
\<close>

definition assign_speakers ::
  "EmbeddingModel \<Rightarrow> (nat \<Rightarrow> bool) \<Rightarrow> DiarizeOptions \<Rightarrow> AudioSegment list
     \<Rightarrow> SpeakerEmbedder \<Rightarrow> fault + (AudioSegment list \<times> SpeakerEmbedder)" where
  "assign_speakers model throws options segments s =
     (if embedding_session model = None then Inr (segments, s)
      else assign_from model throws options (max 0.3 (threshold options)) 0 segments s)"

text \<open>
  The segments of a list, counted from index \<open>i\<close>, whose \<^verbatim>\<open>try\<close> block does not throw.
\<close>

fun not_thrown :: "(nat \<Rightarrow> bool) \<Rightarrow> nat \<Rightarrow> 'a list \<Rightarrow> 'a list" where
  "not_thrown throws i [] = []"
| "not_thrown throws i (x # xs) =
     (if throws i then not_thrown throws (i + 1) xs else x # not_thrown throws (i + 1) xs)"

text \<open>An embedding model and a segment for examples.\<close>

definition demo_model :: EmbeddingModel where
  "demo_model = \<lparr>embedding_session = Some (\<lambda>audio. Some [1, 0]),
                  target_length = 48000, embedding_dim = 2\<rparr>"

definition demo_segment :: AudioSegment where
  "demo_segment = \<lparr>samples = replicate 48000 0, start_time = 0, end_time = 3,
                    speaker_id = None, confidence = None, segment_text = ''''\<rparr>"

subsection \<open>Single-precision arithmetic\<close>

text \<open>
  The fixed-window fallback of \<^verbatim>\<open>create_segments\<close> is also modelled in the arithmetic the
  program runs in: IEEE binary32 with round-to-nearest, ties-to-even, every operation
  rounded on its own (no excess precision, as on x86-64 and ARM64). A \<^verbatim>\<open>float\<close> is the
  real number it denotes. The magnitudes that occur lie in the normal range, so overflow and
  subnormal numbers do not arise; a division by a zero sample rate, which gives an
  infinity or a NaN, is kept out of the arithmetic and treated where it occurs.
\<close>

text \<open>Rounding to the nearest integer, a tie going to the even neighbour.\<close>

definition rne :: "real \<Rightarrow> int" where
  "rne x = (let f = \<lfloor>x\<rfloor>; d = x - real_of_int f
            in if d < 1 / 2 then f else if 1 / 2 < d then f + 1
               else if even f then f else f + 1)"

text \<open>The binary exponent \<open>e\<close> of a non-zero number: \<open>2 ^ e \<le> \<bar>x\<bar> < 2 ^ (e + 1)\<close>.\<close>

definition binade :: "real \<Rightarrow> int" where
  "binade x = \<lfloor>log 2 \<bar>x\<bar>\<rfloor>"

text \<open>
  Rounding to binary32: 24 significant bits, so the spacing of the representable numbers
  around \<open>x\<close> is \<open>2 ^ (e - 23)\<close>.
\<close>

definition round32 :: "real \<Rightarrow> real" where
  "round32 x =
     (if x = 0 then 0
      else let ulp = 2 powr real_of_int (binade x - 23)
           in real_of_int (rne (x / ulp)) * ulp)"

subsection \<open>\<^verbatim>\<open>create_segments\<close> in single precision\<close>

text \<open>
  The block that pushes a segment, with the two products rounded:
  \<^verbatim>\<open>static_cast<size_t>(start * options.sample_rate)\<close> converts the rate to \<^verbatim>\<open>float\<close>,
  multiplies in \<^verbatim>\<open>float\<close> and truncates.
\<close>

definition push_segment_f32 :: "real list \<Rightarrow> DiarizeOptions \<Rightarrow> real \<Rightarrow> real \<Rightarrow> AudioSegment list" where
  "push_segment_f32 audio options start end =
     (let rate = round32 (real_of_int (sample_rate options));
          start_sample = to_size_t (round32 (start * rate));
          end_sample = to_size_t (round32 (end * rate))
      in if end_sample \<le> length audio \<and> start_sample < end_sample
         then [\<lparr>samples = take (end_sample - start_sample) (drop start_sample audio),
                start_time = start, end_time = end,
                speaker_id = None, confidence = None, segment_text = ''''\<rparr>]
         else [])"

text \<open>
  The fixed-window loop. \<^verbatim>\<open>start += segment_duration\<close> is a rounded addition, which
  leaves a large \<^verbatim>\<open>start\<close> unchanged; the loop then never ends, so the result is an option
  and \<open>None\<close> stands for a loop that does not return.
\<close>

partial_function (option) fixed_segments_f32 ::
  "real list \<Rightarrow> DiarizeOptions \<Rightarrow> real \<Rightarrow> real \<Rightarrow> AudioSegment list option" where
  "fixed_segments_f32 audio options total_duration start =
     (if start < round32 (total_duration - 5)
      then Option.bind
             (fixed_segments_f32 audio options total_duration (round32 (start + 25)))
             (\<lambda>later. Some (push_segment_f32 audio options start
                                (min (round32 (start + 25)) total_duration) @ later))
      else Some [])"

text \<open>The loop over consecutive boundaries, with the rounded difference in the test.\<close>

fun boundary_segments_f32 :: "real list \<Rightarrow> DiarizeOptions \<Rightarrow> real list \<Rightarrow> AudioSegment list" where
  "boundary_segments_f32 audio options (start # end # rest) =
     (if round32 (end - start) < 2 then [] else push_segment_f32 audio options start end)
     @ boundary_segments_f32 audio options (end # rest)"
| "boundary_segments_f32 audio options boundaries = []"

text \<open>
  \<^verbatim>\<open>static_cast<float>(audio.size()) / options.sample_rate\<close>: both operands are
  converted to \<^verbatim>\<open>float\<close>, the quotient is rounded.
\<close>

definition total_duration_f32 :: "real list \<Rightarrow> DiarizeOptions \<Rightarrow> real" where
  "total_duration_f32 audio options =
     round32 (round32 (real (length audio)) / round32 (real_of_int (sample_rate options)))"

text \<open>
  \<^verbatim>\<open>create_segments\<close> in single precision, for a non-zero sample rate. With a sample rate
  of 0 the duration is \<open>+inf\<close> for a non-empty buffer, and without change points the
  fixed-window loop then never returns; the other cases at rate 0 compute with an infinity
  or a NaN, which the segment record cannot hold. The model gives \<open>None\<close> for every run at
  rate 0.
\<close>

definition create_segments_f32 ::
  "real list \<Rightarrow> real list \<Rightarrow> DiarizeOptions \<Rightarrow> AudioSegment list option" where
  "create_segments_f32 audio change_points options =
     (if sample_rate options = 0 then None
      else let total_duration = total_duration_f32 audio options
           in if change_points = []
              then (if total_duration > 30
                    then fixed_segments_f32 audio options total_duration 0
                    else Some [\<lparr>samples = audio, start_time = 0, end_time = total_duration,
                                 speaker_id = None, confidence = None, segment_text = ''''\<rparr>])
              else Some (boundary_segments_f32 audio options
                           ([0] @ change_points @ [total_duration])))"

text \<open>
  Inputs for examples: the default options, a buffer of 16384001 samples (1024 seconds
  and one sample at 16 kHz), and the \<open>k\<close>-th full window of 25 seconds at 16 kHz.
\<close>

definition long_audio :: "real list" where
  "long_audio = replicate 16384001 0"

definition default_options :: DiarizeOptions where
  "default_options = \<lparr>max_speakers = 10, threshold = 0.01, sample_rate = 16000\<rparr>"

definition full_window :: "nat \<Rightarrow> AudioSegment" where
  "full_window k = \<lparr>samples = replicate 400000 0,
                     start_time = 25 * real k, end_time = 25 * real k + 25,
                     speaker_id = None, confidence = None, segment_text = ''''\<rparr>"

section \<open>Properties\<close>

subsection \<open>Speaker clustering\<close>

lemma cosine_similarity_bounds: "- 1 \<le> cosine_similarity a b \<and> cosine_similarity a b \<le> 1"
  by (simp add: cosine_similarity_def Let_def)

lemma best_match_scan: "best_match e cs = foldl (scan_step e cs) (- 1, - 1) [0..<length cs]"
  by (simp add: best_match_def scan_step_def)

lemma scan_invariant:
  "foldl (scan_step e cs) (- 1, - 1) [0..<n] = (bs, bi) \<Longrightarrow>
     (\<forall>j<n. cosine_similarity e (cs ! j) \<le> bs) \<and>
     ((bi = - 1 \<and> bs = - 1) \<or>
      (0 \<le> bi \<and> nat bi < n \<and> bs = cosine_similarity e (cs ! nat bi) \<and> - 1 < bs \<and>
       (\<forall>j<nat bi. cosine_similarity e (cs ! j) < bs)))"
proof (induction n arbitrary: bs bi)
  case 0
  then show ?case by simp
next
  case (Suc n)
  obtain bs0 bi0 where prev: "foldl (scan_step e cs) (- 1, - 1) [0..<n] = (bs0, bi0)"
    by (cases "foldl (scan_step e cs) (- 1, - 1) [0..<n]") auto
  note ih = Suc.IH [OF prev]
  from Suc.prems prev have step: "scan_step e cs (bs0, bi0) n = (bs, bi)" by simp
  show ?case
  proof (cases "cosine_similarity e (cs ! n) > bs0")
    case True
    with step have eq: "bs = cosine_similarity e (cs ! n)" "bi = int n"
      by (auto simp: scan_step_def Let_def)
    have "\<forall>j<Suc n. cosine_similarity e (cs ! j) \<le> bs"
      using ih True eq by (auto simp: less_Suc_eq)
    moreover have "- 1 < bs" using ih True eq by auto
    moreover have "\<forall>j<n. cosine_similarity e (cs ! j) < bs"
      using ih True eq by fastforce
    ultimately show ?thesis using eq by simp
  next
    case False
    with step have eq: "bs = bs0" "bi = bi0"
      by (auto simp: scan_step_def Let_def)
    have "\<forall>j<Suc n. cosine_similarity e (cs ! j) \<le> bs"
      using ih False eq by (auto simp: less_Suc_eq)
    then show ?thesis using ih eq by auto
  qed
qed

lemma best_match_spec:
  "best_match e cs = (bs, bi) \<Longrightarrow>
     (\<forall>j<length cs. cosine_similarity e (cs ! j) \<le> bs) \<and>
     ((bi = - 1 \<and> bs = - 1) \<or>
      (0 \<le> bi \<and> nat bi < length cs \<and> bs = cosine_similarity e (cs ! nat bi) \<and> - 1 < bs \<and>
       (\<forall>j<nat bi. cosine_similarity e (cs ! j) < bs)))"
  unfolding best_match_scan by (rule scan_invariant)

lemma best_match_Nil: "best_match e [] = (- 1, - 1)"
  by (simp add: best_match_def)

lemma update_speaker_centroid_length:
  "length (speaker_centroids (update_speaker_centroid i e s)) = length (speaker_centroids s)"
  "length (speaker_counts (update_speaker_centroid i e s)) = length (speaker_counts s)"
  by (simp_all add: update_speaker_centroid_def Let_def)

lemma find_or_create_speaker_cases:
  assumes "find_or_create_speaker e t m s = (sid, s')"
  shows "(length (speaker_centroids s') = length (speaker_centroids s) \<and>
          length (speaker_counts s') = length (speaker_counts s) \<and>
          (sid = 0 \<or> (0 \<le> sid \<and> nat sid < length (speaker_centroids s))))
       \<or> (int (length (speaker_centroids s)) < m \<and>
          speaker_centroids s' = speaker_centroids s @ [e] \<and>
          speaker_counts s' = speaker_counts s @ [1] \<and>
          sid = int (length (speaker_centroids s)))"
proof -
  obtain bs bi where bm: "best_match e (speaker_centroids s) = (bs, bi)"
    by (cases "best_match e (speaker_centroids s)") auto
  note spec = best_match_spec [OF bm]
  show ?thesis
    using assms bm spec
    by (auto simp: find_or_create_speaker_def Let_def update_speaker_centroid_length
             split: if_splits)
qed

lemma find_or_create_speaker_counts:
  assumes "length (speaker_counts s) = length (speaker_centroids s)"
    and "find_or_create_speaker e t m s = (sid, s')"
  shows "length (speaker_counts s') = length (speaker_centroids s')"
  using find_or_create_speaker_cases [OF assms(2)] assms(1) by auto

text \<open>
  C10: with no stored profile and \<open>max_speakers \<le> 0\<close>, for every embedding and every
  threshold \<^verbatim>\<open>find_or_create_speaker\<close> returns id 0 and leaves the profile set empty, so
  that id 0 names no stored profile, and \<^verbatim>\<open>calculate_confidence\<close> for id 0 in that state
  returns the default \<open>0.5\<close>.
\<close>

theorem C10_no_capacity:
  "speaker_centroids s = [] \<Longrightarrow> m \<le> 0 \<Longrightarrow>
     find_or_create_speaker embedding thr m s = (0, s)
     \<and> speaker_centroids (snd (find_or_create_speaker embedding thr m s)) = []
     \<and> calculate_confidence embedding 0
           (snd (find_or_create_speaker embedding thr m s)) = 0.5"
  by (simp add: find_or_create_speaker_def best_match_Nil calculate_confidence_def)

text \<open>The statement at \<open>max_speakers = 0\<close> on a fresh embedder.\<close>

theorem C10_no_capacity_witness:
  "speaker_centroids new_embedder = [] \<and> (0::int) \<le> 0
     \<and> find_or_create_speaker [1, 0] 0.3 0 new_embedder = (0, new_embedder)
     \<and> calculate_confidence [1, 0] 0 (snd (find_or_create_speaker [1, 0] 0.3 0 new_embedder)) = 0.5"
proof -
  have h: "speaker_centroids new_embedder = []" by (simp add: new_embedder_def)
  show ?thesis using h C10_no_capacity [OF h, of 0 "[1, 0]" "0.3"] by auto
qed

lemma find_or_create_speaker_bound:
  assumes "find_or_create_speaker e t m s = (sid, s')"
    and "int (length (speaker_centroids s)) \<le> max m 0"
  shows "int (length (speaker_centroids s')) \<le> max m 0"
  using find_or_create_speaker_cases [OF assms(1)] assms(2) by auto

lemma find_or_create_all_bound:
  "int (length (speaker_centroids s)) \<le> max m 0 \<Longrightarrow>
   int (length (speaker_centroids (snd (find_or_create_all calls m s)))) \<le> max m 0"
proof (induction calls arbitrary: s)
  case Nil
  then show ?case by simp
next
  case (Cons c calls)
  obtain e t where c: "c = (e, t)" by (cases c)
  obtain sid s1 where st: "find_or_create_speaker e t m s = (sid, s1)"
    by (cases "find_or_create_speaker e t m s")
  have "int (length (speaker_centroids s1)) \<le> max m 0"
    using find_or_create_speaker_bound [OF st Cons.prems] .
  from Cons.IH [OF this] show ?case
    by (auto simp: c st split: prod.splits)
qed

text \<open>
  C4 as stated: after every call the number of stored profiles is at most the
  \<open>max_speakers\<close> of the calls. It fails for a negative \<open>max_speakers\<close>: one call with
  \<open>max_speakers = -1\<close> on the empty set stores nothing, and 0 profiles are more than \<open>-1\<close>.
\<close>

theorem C4_counterexample:
  "\<not> int (length (speaker_centroids (snd (find_or_create_all [([1, 0], 0.3)] (- 1) new_embedder)))) \<le> - 1"
  by (simp add: find_or_create_speaker_def best_match_Nil new_embedder_def)

text \<open>
  C4, amended: starting from the empty profile set, after every sequence of
  \<^verbatim>\<open>find_or_create_speaker\<close> calls with the same \<open>max_speakers = m\<close> the number of stored
  profiles is at most \<open>max m 0\<close> (that is, at most \<open>m\<close> whenever \<open>m \<ge> 0\<close>). Ids are dense,
  0-based and in creation order: a call either leaves the number of profiles unchanged, or
  appends exactly one profile at the end, holding the embedding, and returns its position,
  the previous number of profiles. \<^verbatim>\<open>reset_speakers\<close> empties both vectors.
\<close>

theorem C4_bounded_profiles:
  "int (length (speaker_centroids (snd (find_or_create_all calls m new_embedder)))) \<le> max m 0
   \<and> (find_or_create_speaker e t m s = (sid, s') \<longrightarrow>
        length (speaker_centroids s') = length (speaker_centroids s)
        \<or> (speaker_centroids s' = speaker_centroids s @ [e]
           \<and> sid = int (length (speaker_centroids s))))
   \<and> speaker_centroids (reset_speakers s) = [] \<and> speaker_counts (reset_speakers s) = []"
proof -
  have a: "int (length (speaker_centroids (snd (find_or_create_all calls m new_embedder)))) \<le> max m 0"
    by (rule find_or_create_all_bound) (simp add: new_embedder_def)
  have b: "find_or_create_speaker e t m s = (sid, s') \<longrightarrow>
        length (speaker_centroids s') = length (speaker_centroids s)
        \<or> (speaker_centroids s' = speaker_centroids s @ [e]
           \<and> sid = int (length (speaker_centroids s)))"
    using find_or_create_speaker_cases [of e t m s sid s'] by auto
  show ?thesis using a b by (simp add: reset_speakers_def)
qed


text \<open>Three calls with \<open>max_speakers = 2\<close>, and the call that creates profile 1.\<close>

theorem C4_bounded_profiles_witness:
  "int (length (speaker_centroids (snd (find_or_create_all
      [([1, 0], 0.3), ([0, 1], 0.3), ([0, 1], 0.3)] 2 new_embedder)))) \<le> max 2 0
   \<and> find_or_create_speaker [0, 1] 0.3 2 \<lparr>speaker_centroids = [[1, 0]], speaker_counts = [1]\<rparr>
       = (1, \<lparr>speaker_centroids = [[1, 0], [0, 1]], speaker_counts = [1, 1]\<rparr>)
   \<and> speaker_centroids (reset_speakers \<lparr>speaker_centroids = [[1, 0]], speaker_counts = [1]\<rparr>) = []"
  using C4_bounded_profiles [of "[([1, 0], 0.3), ([0, 1], 0.3), ([0, 1], 0.3)]" 2
      "[0, 1]" "0.3" "\<lparr>speaker_centroids = [[1, 0]], speaker_counts = [1]\<rparr>" 1
      "\<lparr>speaker_centroids = [[1, 0], [0, 1]], speaker_counts = [1, 1]\<rparr>"]
  by (simp add: find_or_create_speaker_def best_match_def cosine_similarity_def)

lemma step_creates:
  assumes "\<forall>c \<in> set (speaker_centroids s). cosine_similarity e c < thr"
    and "int (length (speaker_centroids s)) < m"
  shows "find_or_create_speaker e thr m s =
           (int (length (speaker_centroids s)),
            s\<lparr>speaker_centroids := speaker_centroids s @ [e],
              speaker_counts := speaker_counts s @ [1]\<rparr>)"
proof -
  obtain bs bi where bm: "best_match e (speaker_centroids s) = (bs, bi)"
    by (cases "best_match e (speaker_centroids s)") auto
  have "\<not> (bs > thr \<and> bi \<ge> 0)"
    using best_match_spec [OF bm] assms(1) by (auto simp: all_set_conv_all_nth)
  then show ?thesis
    using assms(2) bm by (auto simp: find_or_create_speaker_def Let_def)
qed

lemma run_creates:
  "below_at_every_turn es thr m s \<Longrightarrow>
   int (length (speaker_centroids s) + length es) \<le> m \<Longrightarrow>
   find_or_create_all (map (\<lambda>e. (e, thr)) es) m s =
     (map int [length (speaker_centroids s)..<length (speaker_centroids s) + length es],
      s\<lparr>speaker_centroids := speaker_centroids s @ es,
        speaker_counts := speaker_counts s @ replicate (length es) 1\<rparr>)"
proof (induction es arbitrary: s)
  case Nil
  then show ?case by simp
next
  case (Cons e es)
  let ?s1 = "s\<lparr>speaker_centroids := speaker_centroids s @ [e],
               speaker_counts := speaker_counts s @ [1]\<rparr>"
  have below: "\<forall>c \<in> set (speaker_centroids s). cosine_similarity e c < thr"
    using Cons.prems(1) by simp
  have room: "int (length (speaker_centroids s)) < m"
    using Cons.prems(2) by simp
  have step: "find_or_create_speaker e thr m s = (int (length (speaker_centroids s)), ?s1)"
    using step_creates [OF below room] .
  have rest: "below_at_every_turn es thr m ?s1"
    using Cons.prems(1) step by simp
  have room': "int (length (speaker_centroids ?s1) + length es) \<le> m"
    using Cons.prems(2) by simp
  have upt: "[length (speaker_centroids s)..<length (speaker_centroids s) + length (e # es)]
      = length (speaker_centroids s)
        # [length (speaker_centroids ?s1)..<length (speaker_centroids ?s1) + length es]"
    by (simp add: upt_rec)
  show ?case
    unfolding upt using Cons.IH [OF rest room'] step
    by (simp del: upt_Suc)
qed

lemma find_or_create_all_append:
  "find_or_create_all (xs @ ys) m s =
     (let (ids1, s1) = find_or_create_all xs m s;
          (ids2, s2) = find_or_create_all ys m s1
      in (ids1 @ ids2, s2))"
  by (induction xs arbitrary: s) (auto split: prod.splits)

lemma below_at_every_turn_append:
  "below_at_every_turn (es @ [e]) thr m s \<Longrightarrow>
     below_at_every_turn es thr m s \<and>
     (\<forall>c \<in> set (speaker_centroids (snd (find_or_create_all (map (\<lambda>e. (e, thr)) es) m s))).
        cosine_similarity e c < thr)"
  by (induction es arbitrary: s) (auto split: prod.splits)

lemma step_full:
  assumes "\<forall>c \<in> set (speaker_centroids s). cosine_similarity e c < thr"
    and "int (length (speaker_centroids s)) = m" and "0 < m"
    and "find_or_create_speaker e thr m s = (sid, s')"
  shows "0 \<le> sid \<and> nat sid < length (speaker_centroids s)
         \<and> (\<forall>j<length (speaker_centroids s).
               cosine_similarity e (speaker_centroids s ! j)
               \<le> cosine_similarity e (speaker_centroids s ! nat sid))
         \<and> length (speaker_centroids s') = length (speaker_centroids s)"
proof -
  obtain bs bi where bm: "best_match e (speaker_centroids s) = (bs, bi)"
    by (cases "best_match e (speaker_centroids s)") auto
  note spec = best_match_spec [OF bm]
  have notabove: "\<not> (bs > thr \<and> bi \<ge> 0)"
    using spec assms(1) by (auto simp: all_set_conv_all_nth)
  show ?thesis
  proof (cases "bi \<ge> 0")
    case True
    then have "sid = bi" "s' = update_speaker_centroid bi e s"
      using assms(2,4) bm notabove by (auto simp: find_or_create_speaker_def Let_def)
    then show ?thesis
      using spec True by (auto simp: update_speaker_centroid_length)
  next
    case False
    then have r: "sid = 0" "s' = s"
      using assms(2,4) bm notabove by (auto simp: find_or_create_speaker_def Let_def)
    have "bs = - 1" using spec False by auto
    then have "\<forall>j<length (speaker_centroids s).
               cosine_similarity e (speaker_centroids s ! j) = - 1"
      using spec cosine_similarity_bounds [of e] by (metis order_antisym)
    then show ?thesis using r assms(2,3) by auto
  qed
qed

text \<open>
  C5: with \<open>max_speakers = K \<ge> 1\<close> and \<open>K + 1\<close> embeddings (\<open>es\<close>, then \<open>e\<close>), each
  with similarity below the threshold to every centroid stored at its turn, the first \<open>K\<close>
  calls create the ids \<open>0, \<dots>, K - 1\<close> in order and store the embeddings unchanged; the last
  call creates nothing (there are still \<open>K\<close> profiles) and returns an existing id whose
  centroid is at least as similar to \<open>e\<close> as every other stored centroid.
\<close>

theorem C5_capacity_exhausted:
  assumes "1 \<le> K" and "length es = K"
    and "below_at_every_turn (es @ [e]) thr (int K) new_embedder"
  shows "let before = find_or_create_all (map (\<lambda>x. (x, thr)) es) (int K) new_embedder;
             after = find_or_create_speaker e thr (int K) (snd before)
         in find_or_create_all (map (\<lambda>x. (x, thr)) (es @ [e])) (int K) new_embedder
              = (fst before @ [fst after], snd after)
            \<and> fst before = map int [0..<K]
            \<and> speaker_centroids (snd before) = es
            \<and> length (speaker_centroids (snd after)) = K
            \<and> 0 \<le> fst after \<and> nat (fst after) < K
            \<and> (\<forall>j<K. cosine_similarity e (es ! j) \<le> cosine_similarity e (es ! nat (fst after)))"
proof -
  define before where "before = find_or_create_all (map (\<lambda>x. (x, thr)) es) (int K) new_embedder"
  define after where "after = find_or_create_speaker e thr (int K) (snd before)"
  have below: "below_at_every_turn es thr (int K) new_embedder"
    and last_below: "\<forall>c \<in> set (speaker_centroids (snd before)). cosine_similarity e c < thr"
    using below_at_every_turn_append [OF assms(3)] by (simp_all add: before_def)
  have before_eq: "before = (map int [0..<K],
      new_embedder\<lparr>speaker_centroids := es, speaker_counts := replicate K 1\<rparr>)"
    unfolding before_def
    using run_creates [OF below] assms(2) by (simp add: new_embedder_def)
  have cs: "speaker_centroids (snd before) = es" by (simp add: before_eq)
  have full: "int (length (speaker_centroids (snd before))) = int K" by (simp add: cs assms(2))
  have pos: "0 < int K" using assms(1) by simp
  have after_eq: "find_or_create_speaker e thr (int K) (snd before) = (fst after, snd after)"
    by (simp add: after_def)
  note last_step = step_full [OF last_below full pos after_eq]
  have whole: "find_or_create_all (map (\<lambda>x. (x, thr)) (es @ [e])) (int K) new_embedder
              = (fst before @ [fst after], snd after)"
    by (auto simp: find_or_create_all_append before_def [symmetric] after_def
             split: prod.splits)
  show ?thesis
    unfolding Let_def before_def [symmetric] after_def [symmetric]
    using whole last_step cs assms(2) by (simp add: before_eq)
qed

text \<open>Two orthogonal embeddings fill a capacity of 2; the third goes to the closer one.\<close>

theorem C5_capacity_exhausted_witness:
  "(1::nat) \<le> 2 \<and> length [[1, 0], [0, 1::real]] = 2
   \<and> below_at_every_turn ([[1, 0], [0, 1]] @ [[0.6, 0.8]]) 0.9 (int 2) new_embedder
   \<and> fst (find_or_create_all (map (\<lambda>x. (x, 0.9)) ([[1, 0], [0, 1]] @ [[0.6, 0.8]])) (int 2) new_embedder)
       = [0, 1, 1]"
proof -
  have h1: "(1::nat) \<le> 2" by simp
  have h2: "length [[1, 0], [0, 1::real]] = 2" by simp
  have h3: "below_at_every_turn ([[1, 0], [0, 1]] @ [[0.6, 0.8]]) 0.9 (int 2) new_embedder"
    by (simp add: find_or_create_speaker_def best_match_def cosine_similarity_def new_embedder_def)
  have id: "fst (find_or_create_speaker [0.6, 0.8] 0.9 2
      \<lparr>speaker_centroids = [[1, 0], [0, 1]], speaker_counts = [1, 1]\<rparr>) = 1"
    by (simp add: find_or_create_speaker_def best_match_def cosine_similarity_def)
  show ?thesis
    using h1 h2 h3 C5_capacity_exhausted [OF h1 h2 h3] id
    by (simp add: Let_def find_or_create_speaker_def best_match_def cosine_similarity_def new_embedder_def)
qed

subsection \<open>Segments\<close>


lemma push_segment_times:
  "seg \<in> set (push_segment audio options s e) \<Longrightarrow> start_time seg = s \<and> end_time seg = e"
  by (auto simp: push_segment_def Let_def split: if_splits)

lemma fixed_segments_duration:
  "seg \<in> set (fixed_segments audio options dur start) \<Longrightarrow> end_time seg - start_time seg > 5"
proof (induction audio options dur start rule: fixed_segments.induct)
  case (1 audio options dur start)
  show ?case
  proof (cases "start < dur - 5")
    case True
    from "1.prems" True have
      "seg \<in> set (push_segment audio options start (min (start + 25) dur))
       \<or> seg \<in> set (fixed_segments audio options dur (start + 25))"
      by (subst (asm) fixed_segments.simps) (simp add: Let_def)
    then show ?thesis
    proof
      assume "seg \<in> set (push_segment audio options start (min (start + 25) dur))"
      from push_segment_times [OF this] True show ?thesis by auto
    next
      assume "seg \<in> set (fixed_segments audio options dur (start + 25))"
      with "1.IH" True show ?thesis by simp
    qed
  next
    case False
    with "1.prems" show ?thesis by (subst (asm) fixed_segments.simps) simp
  qed
qed

lemma boundary_segments_duration:
  "seg \<in> set (boundary_segments audio options bs) \<Longrightarrow> end_time seg - start_time seg \<ge> 2"
proof (induction audio options bs rule: boundary_segments.induct)
  case (1 audio options start "end" rest)
  then show ?case
    by (auto dest: push_segment_times split: if_splits)
qed simp_all

text \<open>
  C1 as stated: no emitted segment is shorter than 2 seconds, the single whole-buffer
  segment of the short-audio fallback included. It fails: one second of audio (16000 samples
  at 16 kHz) without change points yields the single segment \<open>[0, 1]\<close>.
\<close>

theorem C1_counterexample:
  "create_segments (replicate 16000 0) []
       \<lparr>max_speakers = 10, threshold = 0.01, sample_rate = 16000\<rparr>
     = [\<lparr>samples = replicate 16000 0, start_time = 0, end_time = 1,
         speaker_id = None, confidence = None, segment_text = ''''\<rparr>]
   \<and> (1::real) - 0 < 2"
  by (simp add: create_segments_def)

text \<open>
  C1, amended: for a positive sample rate, every segment emitted from a non-empty
  change-point list, and every segment of the fixed-window fallback (no change points, more
  than 30 seconds), lasts at least 2 seconds. In the short-audio fallback (no change points, at most 30 seconds) the single
  segment spans the whole buffer, so its duration is the buffer's and may be below 2 seconds.
\<close>

theorem C1_minimum_duration:
  assumes "0 < sample_rate options"
  shows "(change_points \<noteq> [] \<or> real (length audio) / real_of_int (sample_rate options) > 30
            \<longrightarrow> (\<forall>seg \<in> set (create_segments audio change_points options).
                    end_time seg - start_time seg \<ge> 2))
       \<and> (change_points = [] \<and> real (length audio) / real_of_int (sample_rate options) \<le> 30
            \<longrightarrow> create_segments audio change_points options
                  = [\<lparr>samples = audio, start_time = 0,
                      end_time = real (length audio) / real_of_int (sample_rate options),
                      speaker_id = None, confidence = None, segment_text = ''''\<rparr>])"
proof -
  have long: "\<And>seg dur. seg \<in> set (fixed_segments audio options dur 0)
               \<Longrightarrow> end_time seg - start_time seg \<ge> 2"
    using fixed_segments_duration by fastforce
  show ?thesis
    using long boundary_segments_duration
    by (auto simp: create_segments_def Let_def simp del: boundary_segments.simps)
qed

text \<open>Thirty seconds of audio with one change point at 12.3 seconds.\<close>

theorem C1_minimum_duration_witness:
  "create_segments (replicate 480000 0) [12.3] \<lparr>max_speakers = 10, threshold = 0.01, sample_rate = 16000\<rparr>
     = [\<lparr>samples = replicate 196800 0, start_time = 0, end_time = 12.3,
         speaker_id = None, confidence = None, segment_text = ''''\<rparr>,
        \<lparr>samples = replicate 283200 0, start_time = 12.3, end_time = 30,
         speaker_id = None, confidence = None, segment_text = ''''\<rparr>]
   \<and> end_time (create_segments (replicate 480000 0) [12.3]
                   \<lparr>max_speakers = 10, threshold = 0.01, sample_rate = 16000\<rparr> ! 1)
       - start_time (create_segments (replicate 480000 0) [12.3]
                   \<lparr>max_speakers = 10, threshold = 0.01, sample_rate = 16000\<rparr> ! 1) \<ge> 2"
proof -
  let ?options = "\<lparr>max_speakers = 10, threshold = 0.01, sample_rate = 16000\<rparr>"
  let ?segs = "create_segments (replicate 480000 0) [12.3] ?options"
  have h1: "0 < sample_rate ?options" by simp
  have segs: "?segs
     = [\<lparr>samples = replicate 196800 0, start_time = 0, end_time = 12.3,
         speaker_id = None, confidence = None, segment_text = ''''\<rparr>,
        \<lparr>samples = replicate 283200 0, start_time = 12.3, end_time = 30,
         speaker_id = None, confidence = None, segment_text = ''''\<rparr>]"
    by (simp add: create_segments_def push_segment_def to_size_t_def)
  have "\<forall>seg \<in> set ?segs. end_time seg - start_time seg \<ge> 2"
    using C1_minimum_duration [OF h1, of "[12.3]" "replicate 480000 0"] by simp
  moreover have "?segs ! 1 \<in> set ?segs" unfolding segs by simp
  ultimately have "end_time (?segs ! 1) - start_time (?segs ! 1) \<ge> 2" by blast
  then show ?thesis using segs by simp
qed

subsection \<open>The fixed-window fallback in single precision\<close>

text \<open>Rounding to binary32: integers below \<open>2 ^ 24\<close> are exact; three roundings by hand.\<close>

lemma rne_of_int: "rne (real_of_int m) = m"
  by (simp add: rne_def)

lemma binade_eq:
  assumes "2 powr real_of_int e \<le> \<bar>x\<bar>" and "\<bar>x\<bar> < 2 powr real_of_int (e + 1)"
  shows "binade x = e"
proof -
  have pos: "0 < \<bar>x\<bar>" using assms(1) by (smt (verit) powr_gt_zero)
  have lo: "real_of_int e \<le> log 2 \<bar>x\<bar>"
    using assms(1) pos by (simp add: le_log_iff)
  have hi: "log 2 \<bar>x\<bar> < real_of_int e + 1"
    using assms(2) pos by (simp add: log_less_iff)
  show ?thesis unfolding binade_def using lo hi by (simp add: floor_eq_iff)
qed

lemma round32_in_binade:
  assumes "2 powr real_of_int e \<le> \<bar>x\<bar>" and "\<bar>x\<bar> < 2 powr real_of_int (e + 1)"
  shows "round32 x = real_of_int (rne (x / 2 powr real_of_int (e - 23)))
                       * 2 powr real_of_int (e - 23)"
proof -
  have "x \<noteq> 0" using assms(1) by (smt (verit) powr_gt_zero)
  then show ?thesis
    unfolding round32_def binade_eq [OF assms] by (simp add: Let_def)
qed

lemma round32_nat:
  assumes "n < 2 ^ 24"
  shows "round32 (real n) = real n"
proof (cases "n = 0")
  case True
  then show ?thesis by (simp add: round32_def)
next
  case False
  define e where "e = binade (real n)"
  have n1: "1 \<le> real n" using False by simp
  have "0 \<le> log 2 (real n)" using n1 by simp
  then have e0: "0 \<le> e" unfolding e_def binade_def by simp
  have "real n < 2 ^ 24" using assms by (metis of_nat_less_iff of_nat_numeral of_nat_power)
  then have "log 2 (real n) < 24"
    using n1 by (simp add: log_less_iff powr_numeral)
  then have e23: "e \<le> 23" unfolding e_def binade_def by (simp add: floor_le_iff)
  define k where "k = nat (23 - e)"
  have ulp: "2 powr real_of_int (e - 23) = 1 / 2 ^ k"
  proof -
    have "real_of_int (e - 23) = - real k" using e23 by (simp add: k_def)
    then show ?thesis by (simp add: powr_minus powr_realpow inverse_eq_divide)
  qed
  have "real n / (1 / 2 ^ k) = real_of_int (int (n * 2 ^ k))" by simp
  then have "rne (real n / (1 / 2 ^ k)) = int (n * 2 ^ k)"
    using rne_of_int [of "int (n * 2 ^ k)"] by simp
  then have "real_of_int (rne (real n / (1 / 2 ^ k))) * (1 / 2 ^ k) = real n" by simp
  then show ?thesis
    using False unfolding round32_def e_def [symmetric] Let_def ulp by simp
qed

lemma round32_numeral_examples:
  "round32 (16384001 / 16000) = 8388609 / 8192"
  "round32 (8347649 / 8192) = 8347649 / 8192"
  "round32 (8388609 / 8192 * 16000) = 16384002"
proof -
  show "round32 (16384001 / 16000) = 8388609 / 8192"
    by (subst round32_in_binade [where e = 10]) (simp_all add: rne_def powr_minus)
  show "round32 (8347649 / 8192) = 8347649 / 8192"
    by (subst round32_in_binade [where e = 9]) (simp_all add: rne_def powr_minus)
  show "round32 (8388609 / 8192 * 16000) = 16384002"
    by (subst round32_in_binade [where e = 23]) (simp_all add: rne_def)
qed

lemma long_limit: "round32 (8388609 / 8192 - 5) = 8347649 / 8192"
proof -
  have "(8388609 / 8192 - 5 :: real) = 8347649 / 8192" by simp
  then show ?thesis by (simp only: round32_numeral_examples(2))
qed

text \<open>
  The run on 16384001 samples at 16 kHz. The duration rounds up to \<open>1024 + 2 ^ -13\<close>
  seconds. The windows that start at \<open>0, 25, \<dots>, 975\<close> are pushed. The window that starts
  at 1000 is clamped to the duration, its end index \<open>duration * 16000\<close> rounds to 16384002,
  one past the buffer, and the guard drops it.
\<close>

lemma to_size_t_nat: "to_size_t (real n) = n"
  by (simp add: to_size_t_def)

lemma default_rate: "round32 (real_of_int (sample_rate default_options)) = 16000"
  using round32_nat [of 16000] by (simp add: default_options_def)

lemma long_duration: "total_duration_f32 long_audio default_options = 8388609 / 8192"
proof -
  have "round32 (real (length long_audio)) = 16384001"
    using round32_nat [of 16384001] by (simp add: long_audio_def)
  then show ?thesis
    unfolding total_duration_f32_def default_rate
    by (simp only: round32_numeral_examples)
qed

lemma push_full_window:
  assumes "k < 40"
  shows "push_segment_f32 long_audio default_options (25 * real k) (25 * real k + 25)
           = [full_window k]"
proof -
  have s: "25 * real k * 16000 = real (400000 * k)" by simp
  have e: "(25 * real k + 25) * 16000 = real (400000 * k + 400000)" by simp
  have sb: "400000 * k < 2 ^ 24" using assms by simp
  have eb: "400000 * k + 400000 < 2 ^ 24" using assms by simp
  have ss: "to_size_t (round32 (25 * real k * 16000)) = 400000 * k"
    unfolding s round32_nat [OF sb] by (rule to_size_t_nat)
  have es: "to_size_t (round32 ((25 * real k + 25) * 16000)) = 400000 * k + 400000"
    unfolding e round32_nat [OF eb] by (rule to_size_t_nat)
  have inside: "400000 * k + 400000 \<le> length long_audio"
    using assms by (simp add: long_audio_def)
  have slice: "take (400000 * k + 400000 - 400000 * k) (drop (400000 * k) long_audio)
                 = replicate 400000 0"
    using assms by (simp add: long_audio_def min_def)
  show ?thesis
    unfolding push_segment_f32_def default_rate Let_def ss es
    using inside slice by (simp add: full_window_def)
qed

lemma push_last_window:
  "push_segment_f32 long_audio default_options 1000 (8388609 / 8192) = []"
proof -
  have "to_size_t (round32 (8388609 / 8192 * 16000)) = 16384002"
    unfolding round32_numeral_examples(3) using to_size_t_nat [of 16384002] by simp
  then show ?thesis
    unfolding push_segment_f32_def default_rate Let_def
    by (simp add: long_audio_def)
qed

lemma fixed_windows_f32:
  "k \<le> 40 \<Longrightarrow>
   fixed_segments_f32 long_audio default_options (8388609 / 8192) (25 * real k)
     = Some (map full_window [k..<40])"
proof (induction "40 - k" arbitrary: k)
  case 0
  then have k: "k = 40" by simp
  have "round32 (real 1025) = real 1025" by (rule round32_nat) simp
  then have next_start: "round32 (1000 + 25) = 1025" by simp
  have clamp: "min (1025 :: real) (8388609 / 8192) = 8388609 / 8192" by simp
  have stop: "fixed_segments_f32 long_audio default_options (8388609 / 8192) 1025 = Some []"
    by (subst fixed_segments_f32.simps) (simp only: long_limit, simp)
  have "fixed_segments_f32 long_audio default_options (8388609 / 8192) 1000 = Some []"
    by (subst fixed_segments_f32.simps)
       (simp only: long_limit next_start stop clamp push_last_window, simp)
  then show ?case using k by simp
next
  case (Suc d)
  then have lt: "k < 40" by simp
  have next_start: "round32 (25 * real k + 25) = 25 * real (Suc k)"
  proof -
    have "25 * real k + 25 = real (25 * k + 25)" by simp
    moreover have "25 * k + 25 < 2 ^ 24" using lt by simp
    ultimately show ?thesis using round32_nat [of "25 * k + 25"] by simp
  qed
  have go: "25 * real k < 8347649 / 8192" using lt by simp
  have clamp: "min (25 * real (Suc k)) (8388609 / 8192) = 25 * real k + 25"
    using lt by simp
  have ih: "fixed_segments_f32 long_audio default_options (8388609 / 8192) (25 * real (Suc k))
              = Some (map full_window [Suc k..<40])"
    using Suc lt by (intro Suc.hyps(1)) simp_all
  have "fixed_segments_f32 long_audio default_options (8388609 / 8192) (25 * real k)
          = Some (full_window k # map full_window [Suc k..<40])"
    by (subst fixed_segments_f32.simps)
       (simp only: long_limit go if_True next_start ih clamp
          push_full_window [OF lt] Option.bind.simps append_Cons append_Nil)
  then show ?case using lt by (simp add: upt_conv_Cons)
qed

text \<open>Forty seconds at 16 kHz: every operation is exact and both windows are pushed.\<close>

lemma round32_numeral:
  "(numeral w :: nat) < 2 ^ 24 \<Longrightarrow> round32 (numeral w) = numeral w"
  using round32_nat [of "numeral w"] by simp

lemma round32_zero: "round32 0 = 0"
  by (simp add: round32_def)

lemma forty_seconds_f32:
  "create_segments_f32 (replicate 640000 0) [] default_options
     = Some [\<lparr>samples = replicate 400000 0, start_time = 0, end_time = 25,
               speaker_id = None, confidence = None, segment_text = ''''\<rparr>,
             \<lparr>samples = replicate 240000 0, start_time = 25, end_time = 40,
               speaker_id = None, confidence = None, segment_text = ''''\<rparr>]"
proof -
  let ?audio = "replicate 640000 (0::real)"
  have dur: "total_duration_f32 ?audio default_options = 40"
    by (simp add: total_duration_f32_def default_rate round32_numeral)
  have p0: "push_segment_f32 ?audio default_options 0 25
              = [\<lparr>samples = replicate 400000 0, start_time = 0, end_time = 25,
                  speaker_id = None, confidence = None, segment_text = ''''\<rparr>]"
    by (simp add: push_segment_f32_def default_rate round32_numeral round32_zero to_size_t_def)
  have p1: "push_segment_f32 ?audio default_options 25 40
              = [\<lparr>samples = replicate 240000 0, start_time = 25, end_time = 40,
                  speaker_id = None, confidence = None, segment_text = ''''\<rparr>]"
    by (simp add: push_segment_f32_def default_rate round32_numeral to_size_t_def)
  have l2: "fixed_segments_f32 ?audio default_options 40 50 = Some []"
    by (subst fixed_segments_f32.simps) (simp add: round32_numeral)
  have l1: "fixed_segments_f32 ?audio default_options 40 25 = Some
              [\<lparr>samples = replicate 240000 0, start_time = 25, end_time = 40,
                  speaker_id = None, confidence = None, segment_text = ''''\<rparr>]"
    by (subst fixed_segments_f32.simps) (simp add: round32_numeral l2 p1)
  have l0: "fixed_segments_f32 ?audio default_options 40 0 = Some
             [\<lparr>samples = replicate 400000 0, start_time = 0, end_time = 25,
               speaker_id = None, confidence = None, segment_text = ''''\<rparr>,
             \<lparr>samples = replicate 240000 0, start_time = 25, end_time = 40,
               speaker_id = None, confidence = None, segment_text = ''''\<rparr>]"
    by (subst fixed_segments_f32.simps) (simp add: round32_numeral l1 p0)
  have "sample_rate default_options \<noteq> 0" by (simp add: default_options_def)
  then show ?thesis by (simp add: create_segments_f32_def dur l0)
qed

text \<open>
  C7: without change points and with more than 30 seconds of audio the segments start at
  \<open>0, 25, \<dots>\<close> while the start is below the duration minus 5, and the last one ends at
  the duration. The code breaks this in its own arithmetic: for 16384001 samples at 16 kHz
  the duration is \<open>8388609 / 8192\<close> seconds and 1000 is below the duration minus 5, yet
  the run returns the 40 full windows only, the last of which ends at 1000; the window from
  1000 to the end of the buffer is missing.
\<close>

theorem C7_final_window_dropped:
  "total_duration_f32 long_audio default_options = 8388609 / 8192
   \<and> (1000 :: real) < round32 (8388609 / 8192 - 5)
   \<and> create_segments_f32 long_audio [] default_options = Some (map full_window [0..<40])
   \<and> end_time (full_window 39) = 1000"
proof -
  have "fixed_segments_f32 long_audio default_options (8388609 / 8192) (25 * real 0)
          = Some (map full_window [0..<40])"
    by (rule fixed_windows_f32) simp
  moreover have "sample_rate default_options \<noteq> 0" by (simp add: default_options_def)
  ultimately have "create_segments_f32 long_audio [] default_options
                     = Some (map full_window [0..<40])"
    by (simp add: create_segments_f32_def long_duration)
  then show ?thesis
    by (simp add: long_duration long_limit round32_numeral_examples(2) full_window_def)
qed

subsection \<open>Peak finding\<close>

lemma is_peak_neighbours:
  assumes "1 \<le> i" and "i + 1 < length s"
  shows "is_peak_from s i (i + 1) (i - 1) = Inr (s ! (i - 1) < s ! i \<and> s ! (i + 1) < s ! i)"
proof -
  have j3: "is_peak_from s i (i + 1) (i + 2) = Inr True"
    by (subst is_peak_from.simps) simp
  have j2: "is_peak_from s i (i + 1) (i + 1) = Inr (s ! (i + 1) < s ! i)"
    using assms j3 by (subst is_peak_from.simps) (simp add: not_le)
  have j1: "is_peak_from s i (i + 1) i = Inr (s ! (i + 1) < s ! i)"
    using j2 by (subst is_peak_from.simps) simp
  have f: "i - 1 \<noteq> i" "i - 1 \<le> i + 1" "\<not> length s \<le> i - 1" "\<not> length s \<le> i"
    "i - 1 + 1 = i"
    using assms by linarith+
  have "is_peak_from s i (i + 1) (i - 1)
          = (if s ! (i - 1) \<ge> s ! i then Inr False else is_peak_from s i (i + 1) i)"
    by (subst is_peak_from.simps [of s i "i + 1" "i - 1"]) (simp only: f if_True if_False simp_thms)
  then show ?thesis using j1 by (auto simp: not_le)
qed

lemma find_peaks_from_inline:
  "1 \<le> i \<Longrightarrow>
   find_peaks_from s thr 1 (length s - 1) i
     = Inr (filter (\<lambda>i. s ! i > thr \<and> s ! i > s ! (i - 1) \<and> s ! i > s ! (i + 1))
                   [i..<length s - 1])"
proof (induction "length s - 1 - i" arbitrary: i)
  case 0
  then have "\<not> i < length s - 1" by linarith
  then show ?case by (subst find_peaks_from.simps) simp
next
  case (Suc d)
  then have lt: "i < length s - 1" by linarith
  then have inside: "i + 1 < length s" "\<not> length s \<le> i" by linarith+
  have ih: "find_peaks_from s thr 1 (length s - 1) (i + 1)
     = Inr (filter (\<lambda>i. s ! i > thr \<and> s ! i > s ! (i - 1) \<and> s ! i > s ! (i + 1))
                   [i + 1..<length s - 1])"
    using Suc by (intro Suc.hyps(1)) linarith+
  have upt: "[i..<length s - 1] = i # [i + 1..<length s - 1]"
    using lt by (simp add: upt_conv_Cons)
  show ?case
    unfolding upt
    using lt inside ih is_peak_neighbours [OF Suc.prems inside(1)]
    by (subst find_peaks_from.simps) simp
qed

text \<open>
  C9: on every non-empty score sequence and for every threshold, \<^verbatim>\<open>find_peaks\<close> with
  \<open>min_distance = 1\<close> reads no element out of range and returns exactly the indices that the
  inline scan of \<^verbatim>\<open>detect_change_points\<close> selects, in the same order.
\<close>

theorem C9_inline_scan_is_find_peaks:
  "scores \<noteq> [] \<Longrightarrow> find_peaks scores thr 1 = Inr (inline_peaks scores thr)"
proof -
  assume "scores \<noteq> []"
  then have "1 \<le> length scores" by (cases scores) auto
  then show ?thesis
    using find_peaks_from_inline [of 1 scores thr]
    by (simp add: find_peaks_def inline_peaks_def)
qed

text \<open>Six scores with peaks at the indices 1 and 4.\<close>

theorem C9_inline_scan_is_find_peaks_witness:
  "[0, 1, 0, 0.5, 2, 1 :: real] \<noteq> []
   \<and> find_peaks [0, 1, 0, 0.5, 2, 1] 0.4 1 = Inr [1, 4]
   \<and> inline_peaks [0, 1, 0, 0.5, 2, 1] 0.4 = [1, 4]"
proof -
  have h: "[0, 1, 0, 0.5, 2, 1 :: real] \<noteq> []" by simp
  have "inline_peaks [0, 1, 0, 0.5, 2, 1] 0.4 = [1, 4]"
    by (simp add: inline_peaks_def upt_rec)
  then show ?thesis using C9_inline_scan_is_find_peaks [OF h, of "0.4"] by simp
qed

subsection \<open>Sorting and deduplication of change points\<close>

lemma unique_from_subset: "set (unique_from p k xs) \<subseteq> set xs"
  by (induction xs arbitrary: k) auto

lemma unique_from_spaced:
  "sorted (k # xs) \<Longrightarrow>
   sorted_wrt (\<lambda>a b. 1 \<le> b - a) (k # unique_from within_one k xs)"
proof (induction xs arbitrary: k)
  case Nil
  then show ?case by simp
next
  case (Cons x xs)
  show ?case
  proof (cases "\<bar>k - x\<bar> < 1")
    case True
    have "sorted (k # xs)" using Cons.prems by auto
    from Cons.IH [OF this] True show ?thesis by simp
  next
    case False
    have kx: "1 \<le> x - k" using Cons.prems False by auto
    have "sorted (x # xs)" using Cons.prems by simp
    from Cons.IH [OF this]
    have ih: "sorted_wrt (\<lambda>a b. 1 \<le> b - a) (x # unique_from within_one x xs)" .
    then have "\<forall>y \<in> set (unique_from within_one x xs). 1 \<le> y - k"
      using kx by fastforce
    then show ?thesis using False ih kx by simp
  qed
qed

lemma unique_from_covers:
  "sorted (k # xs) \<Longrightarrow> c \<in> set xs \<Longrightarrow>
   \<exists>k' \<in> set (k # unique_from within_one k xs). k' \<le> c \<and> c - k' < 1"
proof (induction xs arbitrary: k)
  case Nil
  then show ?case by simp
next
  case (Cons x xs)
  show ?case
  proof (cases "\<bar>k - x\<bar> < 1")
    case True
    have sk: "sorted (k # xs)" using Cons.prems(1) by auto
    show ?thesis
    proof (cases "c = x")
      case True
      have "k \<le> x \<and> x - k < 1" using Cons.prems(1) \<open>\<bar>k - x\<bar> < 1\<close> by auto
      then show ?thesis using True by auto
    next
      case False
      then have "c \<in> set xs" using Cons.prems(2) by simp
      from Cons.IH [OF sk this] True show ?thesis by simp
    qed
  next
    case False
    have sx: "sorted (x # xs)" using Cons.prems(1) by simp
    show ?thesis
    proof (cases "c = x")
      case True
      then show ?thesis using False by auto
    next
      case c: False
      then have "c \<in> set xs" using Cons.prems(2) by simp
      from Cons.IH [OF sx this] False show ?thesis by auto
    qed
  qed
qed

lemma std_unique_spaced:
  "sorted xs \<Longrightarrow> sorted_wrt (\<lambda>a b. 1 \<le> b - a) (std_unique within_one xs)"
proof (cases xs)
  case Nil
  then show ?thesis by simp
next
  case (Cons x ys)
  assume "sorted xs"
  then have "sorted (x # ys)" using Cons by simp
  from unique_from_spaced [OF this] show ?thesis using Cons by simp
qed

lemma std_unique_subset: "set (std_unique p xs) \<subseteq> set xs"
  using unique_from_subset by (cases xs) fastforce+

lemma std_unique_covers:
  assumes "sorted xs" and "c \<in> set xs"
  shows "\<exists>k \<in> set (std_unique within_one xs). k \<le> c \<and> c - k < 1"
proof (cases xs)
  case Nil
  then show ?thesis using assms by simp
next
  case (Cons x ys)
  show ?thesis
  proof (cases "c = x")
    case True
    then show ?thesis using Cons by simp
  next
    case False
    then have "c \<in> set ys" using assms(2) Cons by simp
    from unique_from_covers [OF assms(1) [unfolded Cons] this] show ?thesis
      using Cons by simp
  qed
qed

lemma spaced_sorted:
  "sorted_wrt (\<lambda>a b. (1::real) \<le> b - a) xs \<Longrightarrow> sorted xs"
  by (rule sorted_wrt_mono_rel [of xs "\<lambda>a b. 1 \<le> b - a"]) auto

text \<open>
  C3: the timestamps that \<^verbatim>\<open>detect_change_points\<close> returns are sorted ascending and any
  two of them are at least one second apart. Every returned timestamp is one of the
  candidates, and every candidate has a returned timestamp at or before it and less than one
  second away: of the candidates that fall within one second after a kept one, the earliest
  is the one kept.
\<close>

theorem C3_sorted_deduplicated:
  "sorted (detect_change_points seg audio thr)
   \<and> (\<forall>i j. i < j \<and> j < length (detect_change_points seg audio thr) \<longrightarrow>
         1 \<le> detect_change_points seg audio thr ! j - detect_change_points seg audio thr ! i)
   \<and> set (detect_change_points seg audio thr) \<subseteq> set (candidate_points seg audio thr)
   \<and> (is_initialized seg \<longrightarrow>
        (\<forall>c \<in> set (candidate_points seg audio thr).
           \<exists>k \<in> set (detect_change_points seg audio thr). k \<le> c \<and> c - k < 1))"
proof (cases "is_initialized seg")
  case False
  then show ?thesis by (simp add: detect_change_points_def)
next
  case True
  let ?cands = "sort (candidate_points seg audio thr)"
  have eq: "detect_change_points seg audio thr = std_unique within_one ?cands"
    using True by (simp add: detect_change_points_def)
  have spaced: "sorted_wrt (\<lambda>a b. 1 \<le> b - a) (std_unique within_one ?cands)"
    by (rule std_unique_spaced) simp
  have a: "sorted (detect_change_points seg audio thr)"
    unfolding eq using spaced by (rule spaced_sorted)
  have b: "\<forall>i j. i < j \<and> j < length (detect_change_points seg audio thr) \<longrightarrow>
         1 \<le> detect_change_points seg audio thr ! j - detect_change_points seg audio thr ! i"
    unfolding eq using spaced by (simp add: sorted_wrt_iff_nth_less)
  have c: "set (detect_change_points seg audio thr) \<subseteq> set (candidate_points seg audio thr)"
    unfolding eq using std_unique_subset [of within_one ?cands] by simp
  have d: "\<forall>c \<in> set (candidate_points seg audio thr).
           \<exists>k \<in> set (detect_change_points seg audio thr). k \<le> c \<and> c - k < 1"
    unfolding eq using std_unique_covers [of ?cands] by simp
  show ?thesis using a b c d by blast
qed


text \<open>The example segmenter on five seconds of audio, step by step.\<close>

lemma demo_scores: "change_probabilities 3 2 [0, 1, 0, 0, 1, 0] = [0, 1, 0]"
  by (simp add: change_probabilities_def change_step_def dominant_scan_def change_prob_def
        upt_rec Let_def ln_div)

lemma demo_window: "process_window demo_segmenter w = [0, 1, 0]"
  by (simp add: process_window_def run_model_def demo_segmenter_def demo_scores)

lemma demo_starts: "window_starts 80000 0 = [0, 25600]"
  by (simp add: window_starts.simps window_size_def hop_size_def)

lemma demo_probabilities: "all_probabilities demo_segmenter (replicate 80000 0) = [0, 1, 0, 0, 1, 0]"
  by (simp add: all_probabilities_def window_frames_def demo_window demo_starts upt_rec)

lemma demo_rate: "segmenter_sample_rate demo_segmenter = 16000"
  by (simp add: demo_segmenter_def)

lemma demo_initialized: "is_initialized demo_segmenter"
  by (simp add: is_initialized_def demo_segmenter_def)

lemma demo_timestamps: "all_timestamps demo_segmenter (replicate 80000 0)
    = [0, 8533 / 8000, 8533 / 4000, 8 / 5, 21333 / 8000, 14933 / 4000]"
  by (simp add: all_timestamps_def window_frames_def demo_window demo_starts upt_rec
        window_size_def demo_rate)

lemma demo_candidates:
  "candidate_points demo_segmenter (replicate 80000 0) (1 / 2) = [8533 / 8000, 21333 / 8000]"
  by (simp add: candidate_points_def detected_points_def demo_probabilities demo_timestamps
        inline_peaks_def upt_rec Let_def demo_rate size_t_of_int_def)

lemma demo_detect:
  "detect_change_points demo_segmenter (replicate 80000 0) (1 / 2) = [8533 / 8000, 21333 / 8000]"
  by (simp add: detect_change_points_def demo_candidates demo_initialized)

text \<open>Five seconds of audio, two windows, one peak in each.\<close>

theorem C3_sorted_deduplicated_witness:
  "detect_change_points demo_segmenter (replicate 80000 0) (1 / 2) = [8533 / 8000, 21333 / 8000]
   \<and> 1 \<le> detect_change_points demo_segmenter (replicate 80000 0) (1 / 2) ! 1
          - detect_change_points demo_segmenter (replicate 80000 0) (1 / 2) ! 0"
proof -
  let ?cps = "detect_change_points demo_segmenter (replicate 80000 0) (1 / 2)"
  have "\<forall>i j. i < j \<and> j < length ?cps \<longrightarrow> 1 \<le> ?cps ! j - ?cps ! i"
    using C3_sorted_deduplicated [of demo_segmenter "replicate 80000 0" "1 / 2"] by blast
  moreover have "(0::nat) < 1 \<and> 1 < length ?cps" by (simp add: demo_detect)
  ultimately have "1 \<le> ?cps ! 1 - ?cps ! 0" by blast
  then show ?thesis using demo_detect by simp
qed

subsection \<open>Change scores\<close>

lemma first_max_unique: "first_max f n d \<Longrightarrow> first_max f n d' \<Longrightarrow> d = d'"
  unfolding first_max_def by (metis linorder_neqE_nat not_less)

lemma dominant_scan_first_max:
  "1 \<le> n \<Longrightarrow> \<exists>d. dominant_scan logit n = (int d, logit d) \<and> first_max logit n d"
proof (induction n)
  case 0
  then show ?case by simp
next
  case (Suc n)
  show ?case
  proof (cases "n = 0")
    case True
    then show ?thesis by (simp add: dominant_scan_def first_max_def)
  next
    case False
    then have n1: "1 \<le> n" by simp
    from Suc.IH [OF n1] obtain d where
      d: "dominant_scan logit n = (int d, logit d)" and fm: "first_max logit n d"
      by blast
    have upt: "[1..<Suc n] = [1..<n] @ [n]" using n1 by simp
    show ?thesis
    proof (cases "logit n > logit d")
      case True
      have "dominant_scan logit (Suc n) = (int n, logit n)"
        using d True unfolding dominant_scan_def upt by simp
      moreover have "first_max logit (Suc n) n"
        using fm True unfolding first_max_def
        by (metis less_Suc_eq less_irrefl linorder_not_le order_le_less_trans order_less_imp_le)
      ultimately show ?thesis by blast
    next
      case False
      have "dominant_scan logit (Suc n) = (int d, logit d)"
        using d False unfolding dominant_scan_def upt by simp
      moreover have "first_max logit (Suc n) d"
        using fm False unfolding first_max_def by (auto simp: less_Suc_eq)
      ultimately show ?thesis by blast
    qed
  qed
qed

lemma spec_dominant_class_first_max:
  assumes "v \<noteq> []"
  shows "first_max (\<lambda>c. v ! c) (length v) (spec_dominant_class v)"
proof -
  let ?m = "Max (set v)"
  let ?d = "length (takeWhile (\<lambda>x. x \<noteq> ?m) v)"
  have mem: "?m \<in> set v" using assms by (intro Max_in) auto
  have "takeWhile (\<lambda>x. x \<noteq> ?m) v \<noteq> v"
    using mem by (auto simp: takeWhile_eq_all_conv)
  moreover have "takeWhile (\<lambda>x. x \<noteq> ?m) v = take ?d v"
    by (rule takeWhile_eq_take)
  ultimately have "?d \<noteq> length v" by auto
  then have lt: "?d < length v"
    using length_takeWhile_le [of "\<lambda>x. x \<noteq> ?m" v] by linarith
  have at: "v ! ?d = ?m"
    using lt nth_length_takeWhile [of "\<lambda>x. x \<noteq> ?m" v] by simp
  have le: "\<forall>c<length v. v ! c \<le> ?m" by simp
  have before: "\<forall>c<?d. v ! c \<noteq> ?m"
    using takeWhile_nth [of _ "\<lambda>x. x \<noteq> ?m" v] nth_mem [of _ "takeWhile (\<lambda>x. x \<noteq> ?m) v"]
    by (metis (mono_tags, lifting) set_takeWhileD)
  have "\<forall>c<?d. v ! c < ?m"
  proof (intro allI impI)
    fix c assume c: "c < ?d"
    then have "v ! c \<le> ?m" using lt le by simp
    moreover have "v ! c \<noteq> ?m" using before c by blast
    ultimately show "v ! c < ?m" by simp
  qed
  then show ?thesis
    unfolding first_max_def spec_dominant_class_def using lt at le by simp
qed

lemma first_max_cong:
  "(\<And>c. c < n \<Longrightarrow> f c = g c) \<Longrightarrow> first_max f n d \<Longrightarrow> first_max g n d"
  unfolding first_max_def by auto

lemma dominant_scan_spec:
  assumes "1 \<le> nc"
  shows "dominant_scan logit nc
           = (int (spec_dominant_class (map logit [0..<nc])), Max (set (map logit [0..<nc])))"
proof -
  let ?v = "map logit [0..<nc]"
  from dominant_scan_first_max [OF assms] obtain d where
    d: "dominant_scan logit nc = (int d, logit d)" and fm: "first_max logit nc d"
    by blast
  have ne: "?v \<noteq> []" using assms by simp
  have "first_max (\<lambda>c. ?v ! c) (length ?v) (spec_dominant_class ?v)"
    by (rule spec_dominant_class_first_max [OF ne])
  then have "first_max logit nc (spec_dominant_class ?v)"
    by (intro first_max_cong [of nc "\<lambda>c. ?v ! c" logit]) auto
  then have eq: "d = spec_dominant_class ?v" using fm first_max_unique by blast
  have dlt: "d < nc" using fm by (simp add: first_max_def)
  have "Max (set ?v) = logit d"
  proof (rule Max_eqI)
    show "finite (set ?v)" by simp
    show "\<And>y. y \<in> set ?v \<Longrightarrow> y \<le> logit d" using fm by (auto simp: first_max_def)
    show "logit d \<in> set ?v" using dlt by auto
  qed
  then show ?thesis using d eq by simp
qed


lemma foldl_sum: "foldl (\<lambda>s c. s + g c) a xs = a + sum_list (map g xs)"
  for g :: "'a \<Rightarrow> real"
  by (induction xs arbitrary: a) (simp_all add: add.assoc)

lemma foldl_entropy:
  "foldl (\<lambda>h c. let prob = q c in if prob > e then h - prob * ln prob else h) a xs
     = a - sum_list (map (\<lambda>c. if q c > e then q c * ln (q c) else 0) xs)"
  for q :: "'a \<Rightarrow> real"
  by (induction xs arbitrary: a) (simp_all add: Let_def)

lemma double_clip: "min 1 (min 1 x * 2) = min 1 (2 * x)" for x :: real
  by (simp add: min_def)

lemma change_prob_changed:
  assumes "prev \<noteq> - 1" and "prev \<noteq> dc"
  shows "change_prob logit nc prev dc (Max (set (map logit [0..<nc])))
           = min 1 (2 * (pruned_entropy (spec_softmax (map logit [0..<nc])) / ln (real nc)))"
proof -
  let ?m = "Max (set (map logit [0..<nc]))"
  let ?z = "\<Sum>c\<leftarrow>[0..<nc]. exp (logit c - ?m)"
  have sum_exp: "foldl (\<lambda>s c. s + exp (logit c - ?m)) 0 [0..<nc] = ?z"
    by (simp add: foldl_sum)
  have softmax: "spec_softmax (map logit [0..<nc]) = map (\<lambda>c. exp (logit c - ?m) / ?z) [0..<nc]"
    by (simp add: spec_softmax_def Let_def o_def)
  define q where "q = (\<lambda>c. exp (logit c - ?m) / ?z)"
  have fe: "foldl (\<lambda>h c. let prob = q c in if prob > 0.000001 then h - prob * ln prob else h)
                  0 [0..<nc]
            = 0 - sum_list (map (\<lambda>c. if q c > 0.000001 then q c * ln (q c) else 0) [0..<nc])"
    by (rule foldl_entropy)
  have pe: "pruned_entropy (map q [0..<nc])
            = - sum_list (map (\<lambda>c. if q c > 0.000001 then q c * ln (q c) else 0) [0..<nc])"
    by (simp add: pruned_entropy_def o_def)
  have "foldl (\<lambda>h c. let prob = q c in if prob > 0.000001 then h - prob * ln prob else h)
                  0 [0..<nc]
        = pruned_entropy (map q [0..<nc])"
    unfolding fe pe by simp
  then have entropy: "foldl (\<lambda>h c. let prob = exp (logit c - ?m) / ?z
                               in if prob > 0.000001 then h - prob * ln prob else h)
                        0 [0..<nc]
                 = pruned_entropy (spec_softmax (map logit [0..<nc]))"
    unfolding softmax q_def .
  have c1: "(prev \<noteq> - 1 \<and> prev \<noteq> dc) = True" "(dc \<noteq> prev) = True"
    using assms by auto
  have "change_prob logit nc prev dc ?m
          = min 1 (min 1 (pruned_entropy (spec_softmax (map logit [0..<nc])) / ln (real nc)) * 2)"
    unfolding change_prob_def Let_def sum_exp entropy [unfolded Let_def] c1 if_True ..
  then show ?thesis by (simp only: double_clip)
qed

lemma change_prob_same: "change_prob logit nc prev prev ml = 0"
  by (simp add: change_prob_def)

lemma change_prob_first: "change_prob logit nc (- 1) dc ml = 0"
  by (simp add: change_prob_def)

lemma dominant_scan_class_scores:
  "1 \<le> nc \<Longrightarrow>
   dominant_scan (\<lambda>c. data ! (t * nc + c)) nc
     = (int (spec_dominant_class (class_scores nc data t)), Max (set (class_scores nc data t)))"
  unfolding class_scores_def by (rule dominant_scan_spec)

lemma change_step_score:
  assumes nc: "1 \<le> nc"
    and prev: "prev = (if t = 0 then - 1 else int (spec_dominant_class (class_scores nc data (t - 1))))"
  shows "change_step nc data (acc, prev) t
           = (acc @ [window_change_score nc data t],
              int (spec_dominant_class (class_scores nc data t)))"
proof -
  let ?logit = "\<lambda>c. data ! (t * nc + c)"
  let ?dc = "int (spec_dominant_class (class_scores nc data t))"
  let ?ml = "Max (set (class_scores nc data t))"
  have scan: "dominant_scan ?logit nc = (?dc, ?ml)"
    by (rule dominant_scan_class_scores [OF nc])
  have score: "change_prob ?logit nc prev ?dc ?ml = window_change_score nc data t"
  proof (cases "t = 0")
    case True
    then show ?thesis using prev by (simp add: change_prob_first window_change_score_def)
  next
    case False
    then have p: "prev = int (spec_dominant_class (class_scores nc data (t - 1)))"
      using prev by simp
    show ?thesis
    proof (cases "spec_dominant_class (class_scores nc data t)
                  = spec_dominant_class (class_scores nc data (t - 1))")
      case True
      then show ?thesis using p by (simp add: change_prob_same window_change_score_def)
    next
      case ne: False
      have "prev \<noteq> - 1" "prev \<noteq> ?dc" using p ne by simp_all
      from change_prob_changed [OF this, of ?logit nc]
      show ?thesis using ne False
        by (simp add: window_change_score_def class_scores_def)
    qed
  qed
  show ?thesis
    unfolding change_step_def using scan score by (simp add: Let_def)
qed

lemma change_loop:
  assumes nc: "1 \<le> nc"
  shows "foldl (change_step nc data) ([], - 1) [0..<n]
           = (map (window_change_score nc data) [0..<n],
              if n = 0 then - 1 else int (spec_dominant_class (class_scores nc data (n - 1))))"
proof (induction n)
  case 0
  then show ?case by simp
next
  case (Suc n)
  have "foldl (change_step nc data) ([], - 1) [0..<Suc n]
        = change_step nc data
            (map (window_change_score nc data) [0..<n],
             if n = 0 then - 1 else int (spec_dominant_class (class_scores nc data (n - 1)))) n"
    using Suc.IH by simp
  also have "\<dots> = (map (window_change_score nc data) [0..<n] @ [window_change_score nc data n],
                     int (spec_dominant_class (class_scores nc data n)))"
    by (rule change_step_score [OF nc refl])
  finally show ?case by simp
qed

lemma change_probabilities_rule:
  "1 \<le> nc \<Longrightarrow> change_probabilities ts nc data = map (window_change_score nc data) [0..<ts]"
  by (simp add: change_probabilities_def change_loop)

lemma pruned_entropy_shannon:
  "\<forall>x \<in> set p. 0.000001 < x \<Longrightarrow> pruned_entropy p = shannon_entropy p"
proof -
  assume "\<forall>x \<in> set p. 0.000001 < x"
  then have "map (\<lambda>x. if x > 0.000001 then x * ln x else 0) p = map (\<lambda>x. x * ln x) p"
    by (intro map_cong) auto
  then show ?thesis by (simp only: pruned_entropy_def shannon_entropy_def)
qed

text \<open>
  The restriction to probabilities above \<open>1e-6\<close> matters: for the scores \<open>0\<close> and \<open>-20\<close>
  the second softmax probability is below \<open>1e-6\<close>, and the pruned sum is strictly smaller
  than the Shannon entropy.
\<close>

lemma exp_minus_20: "exp (- 20 :: real) < 0.000001"
proof -
  have "(2::real) \<le> exp 1" using exp_ge_add_one_self [of "1::real"] by simp
  then have "(2::real) ^ 20 \<le> exp 1 ^ 20" by (intro power_mono) simp_all
  also have "exp (1::real) ^ 20 = exp 20"
    using exp_of_nat_mult [of 20 "1::real"] by simp
  finally have big: "(1048576::real) \<le> exp 20" by simp
  have "exp (- 20 :: real) = 1 / exp 20" by (simp add: exp_minus inverse_eq_divide)
  also have "\<dots> \<le> 1 / 1048576" using big by (intro divide_left_mono) simp_all
  also have "\<dots> < (0.000001::real)" by simp
  finally show ?thesis .
qed

lemma pruning_matters:
  "pruned_entropy (spec_softmax [0, - 20]) < shannon_entropy (spec_softmax [0, - 20])"
proof -
  define e :: real where "e = exp (- 20)"
  have e: "0 < e" "e < 0.000001" using exp_minus_20 by (simp_all add: e_def)
  define p1 where "p1 = 1 / (1 + e)"
  define p2 where "p2 = e / (1 + e)"
  have sm: "spec_softmax [0, - 20] = [p1, p2]"
    by (simp add: spec_softmax_def Let_def p1_def p2_def e_def)
  have p1: "0.000001 < p1" using e unfolding p1_def by (simp add: field_simps)
  have p2: "0 < p2" "p2 < 0.000001" "p2 < 1"
    using e unfolding p2_def by (simp_all add: field_simps)
  have "ln p2 < 0" using p2 by simp
  then have neg: "p2 * ln p2 < 0" using p2(1) by (simp add: mult_pos_neg)
  have "pruned_entropy [p1, p2] = - (p1 * ln p1)"
    using p1 p2 by (simp add: pruned_entropy_def)
  moreover have "shannon_entropy [p1, p2] = - (p1 * ln p1) - p2 * ln p2"
    by (simp add: shannon_entropy_def)
  ultimately show ?thesis unfolding sm using neg by simp
qed

lemma all_probabilities_windows:
  "all_probabilities seg audio
     = concat (map (\<lambda>i. process_window seg (take window_size (drop i audio)))
                   (window_starts (length audio) 0))"
proof -
  have "map fst (window_frames seg audio i)
          = process_window seg (take window_size (drop i audio))" for i
    by (simp add: window_frames_def Let_def o_def map_nth)
  then show ?thesis by (simp add: all_probabilities_def)
qed

lemma scores_of_outputs:
  assumes "\<forall>(ts, nc, data) \<in> set (concat (map (\<lambda>i. case run_model seg (w i) of
                         None \<Rightarrow> [] | Some out \<Rightarrow> [out]) starts)). 0 < nc \<and> length data = ts * nc"
  shows "concat (map (\<lambda>i. process_window seg (w i)) starts)
       = concat (map (\<lambda>(ts, nc, data). map (window_change_score nc data) [0..<ts])
                     (concat (map (\<lambda>i. case run_model seg (w i) of
                         None \<Rightarrow> [] | Some out \<Rightarrow> [out]) starts)))"
  using assms
proof (induction starts)
  case Nil
  then show ?case by simp
next
  case (Cons i starts)
  show ?case
  proof (cases "run_model seg (w i)")
    case None
    then show ?thesis using Cons by (simp add: process_window_def)
  next
    case (Some out)
    obtain ts nc data where out: "out = (ts, nc, data)" by (cases out)
    have "0 < nc" using Cons.prems Some out by simp
    then have "process_window seg (w i) = map (window_change_score nc data) [0..<ts]"
      using Some out by (simp add: process_window_def change_probabilities_rule)
    then show ?thesis using Cons Some out by simp
  qed
qed

text \<open>
  C2, amended: the scores of a buffer are the concatenation, in window order, of the scores
  of each window's model output, and within one window the score of a frame is 0 when the
  frame is the first frame of that window or its dominant class (argmax, ties to the lowest
  index) equals the dominant class of the previous frame of the same window; otherwise it
  is \<open>min(1, 2 * H / log(num_classes))\<close>, where \<open>H\<close> sums \<open>- p log p\<close> over those
  probabilities \<open>p\<close> of the frame's softmax (maximal score subtracted) that exceed \<open>1e-6\<close>.
  The outputs are tensors of the declared shape with at least one class.
\<close>

theorem C2_change_score_per_window:
  assumes "\<forall>(time_steps, num_classes, output_data) \<in> set (window_outputs seg audio).
             0 < num_classes \<and> length output_data = time_steps * num_classes"
  shows "all_probabilities seg audio
           = concat (map (\<lambda>(time_steps, num_classes, output_data).
                            map (window_change_score num_classes output_data) [0..<time_steps])
                         (window_outputs seg audio))
         \<and> (\<forall>p. (\<forall>x \<in> set p. 0.000001 < x) \<longrightarrow> pruned_entropy p = shannon_entropy p)"
proof -
  have "all_probabilities seg audio
           = concat (map (\<lambda>(time_steps, num_classes, output_data).
                            map (window_change_score num_classes output_data) [0..<time_steps])
                         (window_outputs seg audio))"
    unfolding all_probabilities_windows
    using assms unfolding window_outputs_def
    by (rule scores_of_outputs)
  then show ?thesis using pruned_entropy_shannon by blast
qed

lemma demo_outputs:
  "window_outputs demo_segmenter (replicate 80000 0)
     = [(3, 2, [0, 1, 0, 0, 1, 0]), (3, 2, [0, 1, 0, 0, 1, 0])]"
  by (simp add: window_outputs_def run_model_def demo_segmenter_def demo_starts)

text \<open>The example segmenter: two windows of three frames each.\<close>

theorem C2_change_score_per_window_witness:
  "window_outputs demo_segmenter (replicate 80000 0)
     = [(3, 2, [0, 1, 0, 0, 1, 0]), (3, 2, [0, 1, 0, 0, 1, 0])]
   \<and> all_probabilities demo_segmenter (replicate 80000 0)
     = concat (map (\<lambda>(time_steps, num_classes, output_data).
                      map (window_change_score num_classes output_data) [0..<time_steps])
                   (window_outputs demo_segmenter (replicate 80000 0)))
   \<and> all_probabilities demo_segmenter (replicate 80000 0) = [0, 1, 0, 0, 1, 0]"
proof -
  have h: "\<forall>(time_steps, num_classes, output_data)
              \<in> set (window_outputs demo_segmenter (replicate 80000 0)).
             0 < num_classes \<and> length output_data = time_steps * num_classes"
    unfolding demo_outputs by simp
  from C2_change_score_per_window [OF h]
  have "all_probabilities demo_segmenter (replicate 80000 0)
     = concat (map (\<lambda>(time_steps, num_classes, output_data).
                      map (window_change_score num_classes output_data) [0..<time_steps])
                   (window_outputs demo_segmenter (replicate 80000 0)))"
    by blast
  then show ?thesis using demo_outputs demo_probabilities by simp
qed

text \<open>The second example segmenter on five seconds of audio that start with a click.\<close>

lemma foldl_max_zeros:
  "0 \<le> a \<Longrightarrow> foldl (\<lambda>m sample. max m \<bar>sample\<bar>) a (replicate n (0::real)) = a"
  by (induction n) simp_all

lemma normalize_audio_first:
  "audio \<noteq> [] \<Longrightarrow>
   normalize_audio audio ! 0
     = (if foldl (\<lambda>m sample. max m \<bar>sample\<bar>) 0 audio > 0.000001
        then audio ! 0 / foldl (\<lambda>m sample. max m \<bar>sample\<bar>) 0 audio else audio ! 0)"
  by (cases audio) (simp_all add: normalize_audio_def Let_def upt_rec)

lemma onset_first_window:
  "run_model onset_segmenter (1 # replicate 51199 0) = Some (1, 2, [0, 1])"
proof -
  have "normalize_audio (1 # replicate 51199 0) ! 0 = 1"
    by (subst normalize_audio_first) (simp_all add: foldl_max_zeros)
  then show ?thesis
    by (simp add: run_model_def onset_segmenter_def window_size_def)
qed

lemma onset_second_window:
  "run_model onset_segmenter (replicate 51200 0) = Some (1, 2, [0, 0])"
proof -
  have "normalize_audio (replicate 51200 0) ! 0 = 0"
    by (subst normalize_audio_first) simp_all
  then show ?thesis
    by (simp add: run_model_def onset_segmenter_def window_size_def)
qed

lemma onset_windows:
  "take window_size (drop 0 (1 # replicate 79999 (0::real))) = 1 # replicate 51199 0"
  "take window_size (drop 25600 (1 # replicate 79999 (0::real))) = replicate 51200 0"
  by (simp_all add: window_size_def)

lemma onset_length: "length (1 # replicate 79999 (0::real)) = 80000"
  by simp

lemma onset_outputs:
  "window_outputs onset_segmenter (1 # replicate 79999 0) = [(1, 2, [0, 1]), (1, 2, [0, 0])]"
proof -
  have "window_outputs onset_segmenter (1 # replicate 79999 0)
        = concat (map (\<lambda>i. case run_model onset_segmenter
                                   (take window_size (drop i (1 # replicate 79999 0))) of
                               None \<Rightarrow> [] | Some out \<Rightarrow> [out]) [0, 25600])"
    by (simp only: window_outputs_def onset_length demo_starts)
  also have "\<dots> = [(1, 2, [0, 1]), (1, 2, [0, 0])]"
    by (simp only: list.map concat.simps onset_windows onset_first_window onset_second_window
          option.case append_Cons append_Nil)
  finally show ?thesis .
qed

lemma onset_probabilities:
  "all_probabilities onset_segmenter (1 # replicate 79999 0) = [0, 0]"
proof -
  have a: "change_probabilities 1 2 [0, 1] = [0]"
    by (simp add: change_probabilities_def change_step_def dominant_scan_def change_prob_def
          upt_rec)
  have b: "change_probabilities 1 2 [0, 0] = [0]"
    by (simp add: change_probabilities_def change_step_def dominant_scan_def change_prob_def
          upt_rec)
  have "all_probabilities onset_segmenter (1 # replicate 79999 0)
        = concat (map (\<lambda>i. process_window onset_segmenter
                                (take window_size (drop i (1 # replicate 79999 0))))
                      [0, 25600])"
    by (simp only: all_probabilities_windows onset_length demo_starts)
  also have "\<dots> = [0, 0]"
    by (simp only: list.map concat.simps onset_windows process_window_def
          onset_first_window onset_second_window option.case prod.case a b
          append_Cons append_Nil)
  finally show ?thesis .
qed

lemma onset_stream:
  "frame_stream (window_outputs onset_segmenter (1 # replicate 79999 0)) = [[0, 1], [0, 0]]"
  by (simp add: frame_stream_def onset_outputs class_scores_def upt_rec)

lemma spec_score_tie: "spec_change_score [[0, 1], [0, 0]] 1 = 1"
proof -
  have d0: "spec_dominant_class [0, 1] = 1" by (simp add: spec_dominant_class_def)
  have d1: "spec_dominant_class [0, 0] = 0" by (simp add: spec_dominant_class_def)
  have sm: "spec_softmax [0, 0] = [1 / 2, 1 / 2]" by (simp add: spec_softmax_def)
  have "shannon_entropy [1 / 2, 1 / 2] = ln 2"
    by (simp add: shannon_entropy_def ln_div)
  then have "min 1 (2 * (shannon_entropy (spec_softmax [0, 0]) / ln (real (length [0, 0::real]))))
             = (1::real)"
    by (simp add: sm)
  moreover have "[[0, 1], [0, 0::real]] ! 1 = [0, 0]" "[[0, 1], [0, 0::real]] ! (1 - 1) = [0, 1]"
    by simp_all
  ultimately show ?thesis
    unfolding spec_change_score_def using d0 d1 by simp
qed

text \<open>
  C2 as stated: over the stream of the class-score vectors of all windows of a buffer, the
  change score is 0 only at the first frame of the stream or where the dominant class
  repeats, and the doubled, clipped normalised Shannon entropy elsewhere. It fails at the
  first frame of the second window: there the dominant class changes (from 1 to 0, a tie of
  two classes with normalised entropy 1), so the stated rule gives 1, and the code gives 0.
\<close>

theorem C2_counterexample:
  "all_probabilities onset_segmenter (1 # replicate 79999 0) ! 1 = 0
   \<and> spec_change_score
        (frame_stream (window_outputs onset_segmenter (1 # replicate 79999 0))) 1 = 1"
  unfolding onset_probabilities onset_stream spec_score_tie by simp

subsection \<open>Recovery from a failing segment\<close>

text \<open>
  For \<open>1 \<le> max_speakers\<close> (an \<^verbatim>\<open>int\<close>, so below \<open>2 ^ 31\<close>) the recovery works: the
  loop always returns, a segment whose \<^verbatim>\<open>try\<close> block throws gets the id
  \<open>i mod max_speakers\<close> and the confidence \<open>0.5\<close>, and the segments that do not throw are
  labelled exactly as in a run over them alone, with the same final profiles.
\<close>

lemma size_t_of_positive_int:
  assumes "0 < m" and "m < 2 ^ 31"
  shows "size_t_of_int m = nat m" and "size_t_of_int m \<noteq> 0"
proof -
  have "m < 2 ^ 64" using assms(2) by simp
  then have "m mod 2 ^ 64 = m" using assms(1) by (simp add: mod_pos_pos_trivial)
  then show "size_t_of_int m = nat m" by (simp add: size_t_of_int_def)
  then show "size_t_of_int m \<noteq> 0" using assms(1) by simp
qed

lemma fallback_id:
  assumes "0 < m" and "m < 2 ^ 31"
  shows "int_of_size_t (i mod size_t_of_int m) = int i mod m"
proof -
  have sz: "size_t_of_int m = nat m"
    by (rule size_t_of_positive_int [OF assms])
  have conv: "int (i mod nat m) = int i mod m"
    using assms(1) by (simp add: zmod_int)
  have lo: "0 \<le> int i mod m" using assms(1) by simp
  have "int i mod m < m" using assms(1) by (rule pos_mod_bound)
  then have hi: "int i mod m < 2 ^ 31" using assms(2) by linarith
  have "(int i mod m + 2 ^ 31) mod 2 ^ 32 = int i mod m + 2 ^ 31"
    using lo hi by (intro mod_pos_pos_trivial) simp_all
  then show ?thesis
    unfolding sz int_of_size_t_def conv by simp
qed

lemma assign_from_total:
  assumes "0 < max_speakers options" and "max_speakers options < 2 ^ 31"
  shows "\<exists>out s'. assign_from model throws options thr i segs s = Inr (out, s')
                   \<and> length out = length segs"
proof (induction segs arbitrary: i s)
  case Nil
  then show ?case by simp
next
  case (Cons segment rest)
  have nz: "size_t_of_int (max_speakers options) \<noteq> 0"
    by (rule size_t_of_positive_int [OF assms(1,2)])
  show ?case
  proof (cases "throws i")
    case True
    from Cons [of "i + 1" s] obtain out s' where
      "assign_from model throws options thr (i + 1) rest s = Inr (out, s')"
      "length out = length rest" by blast
    then show ?thesis using True nz by (simp add: Let_def)
  next
    case False
    obtain sid s1 where step: "find_or_create_speaker
        (extract_embedding model (samples segment)) thr (max_speakers options) s = (sid, s1)"
      by (cases "find_or_create_speaker
        (extract_embedding model (samples segment)) thr (max_speakers options) s")
    from Cons [of "i + 1" s1] obtain out s' where
      "assign_from model throws options thr (i + 1) rest s1 = Inr (out, s')"
      "length out = length rest" by blast
    then show ?thesis using False step by (simp add: Let_def)
  qed
qed

lemma assign_from_fallback:
  assumes "0 < max_speakers options" and "max_speakers options < 2 ^ 31"
    and "assign_from model throws options thr i segs s = Inr (out, s')"
    and "j < length segs" and "throws (i + j)"
  shows "out ! j = (segs ! j)\<lparr>speaker_id := Some (int (i + j) mod max_speakers options),
                              confidence := Some 0.5\<rparr>"
  using assms(3-5)
proof (induction segs arbitrary: i j s out)
  case Nil
  then show ?case by simp
next
  case (Cons segment rest)
  have nz: "size_t_of_int (max_speakers options) \<noteq> 0"
    by (rule size_t_of_positive_int [OF assms(1,2)])
  obtain sid s1 where step: "find_or_create_speaker
        (extract_embedding model (samples segment)) thr (max_speakers options) s = (sid, s1)"
    by (cases "find_or_create_speaker
        (extract_embedding model (samples segment)) thr (max_speakers options) s")
  define s2 where "s2 = (if throws i then s else s1)"
  obtain out' where rest: "assign_from model throws options thr (i + 1) rest s2 = Inr (out', s')"
    and hd: "out = (if throws i
               then segment\<lparr>speaker_id := Some (int_of_size_t (i mod size_t_of_int (max_speakers options))),
                            confidence := Some 0.5\<rparr>
               else segment\<lparr>speaker_id := Some sid,
                  confidence := Some (calculate_confidence
                     (extract_embedding model (samples segment)) sid s1)\<rparr>) # out'"
    using Cons.prems(1) nz step unfolding s2_def
    by (auto simp: Let_def split: if_splits sum.splits prod.splits)
  show ?case
  proof (cases j)
    case 0
    then show ?thesis
      using Cons.prems(3) hd fallback_id [OF assms(1,2), of i] by simp
  next
    case (Suc j')
    have "out' ! j' = (rest ! j')\<lparr>speaker_id := Some (int (i + 1 + j') mod max_speakers options),
                              confidence := Some 0.5\<rparr>"
      using Cons.IH [OF rest] Cons.prems(2,3) Suc by simp
    then show ?thesis using hd Suc by simp
  qed
qed

lemma assign_from_isolated:
  assumes "0 < max_speakers options" and "max_speakers options < 2 ^ 31"
    and "assign_from model throws options thr i segs s = Inr (out, s')"
  shows "assign_from model (\<lambda>k. False) options thr i' (not_thrown throws i segs) s
           = Inr (not_thrown throws i out, s')"
  using assms(3)
proof (induction segs arbitrary: i i' s out)
  case Nil
  then show ?case by simp
next
  case (Cons segment rest)
  have nz: "size_t_of_int (max_speakers options) \<noteq> 0"
    by (rule size_t_of_positive_int [OF assms(1,2)])
  obtain sid s1 where step: "find_or_create_speaker
        (extract_embedding model (samples segment)) thr (max_speakers options) s = (sid, s1)"
    by (cases "find_or_create_speaker
        (extract_embedding model (samples segment)) thr (max_speakers options) s")
  show ?case
  proof (cases "throws i")
    case True
    then obtain out' where rest: "assign_from model throws options thr (i + 1) rest s = Inr (out', s')"
      and hd: "out = segment\<lparr>speaker_id := Some (int_of_size_t (i mod size_t_of_int (max_speakers options))),
                            confidence := Some 0.5\<rparr> # out'"
      using Cons.prems nz by (auto simp: Let_def split: sum.splits prod.splits)
    from Cons.IH [OF rest, of i'] show ?thesis using True hd by simp
  next
    case False
    then obtain out' where rest: "assign_from model throws options thr (i + 1) rest s1 = Inr (out', s')"
      and hd: "out = segment\<lparr>speaker_id := Some sid,
                  confidence := Some (calculate_confidence
                     (extract_embedding model (samples segment)) sid s1)\<rparr> # out'"
      using Cons.prems step by (auto simp: Let_def split: sum.splits prod.splits)
    from Cons.IH [OF rest, of "i' + 1"] show ?thesis using False hd step by (simp add: Let_def)
  qed
qed

lemma assign_speakers_recovers:
  assumes "0 < max_speakers options" and "max_speakers options < 2 ^ 31"
    and "embedding_session model \<noteq> None"
  shows "\<exists>out s'. assign_speakers model throws options segs s = Inr (out, s')
           \<and> length out = length segs
           \<and> (\<forall>j<length segs. throws j \<longrightarrow>
                 out ! j = (segs ! j)\<lparr>speaker_id := Some (int j mod max_speakers options),
                                      confidence := Some 0.5\<rparr>)
           \<and> assign_speakers model (\<lambda>k. False) options (not_thrown throws 0 segs) s
                 = Inr (not_thrown throws 0 out, s')"
proof -
  let ?thr = "max 0.3 (threshold options)"
  from assign_from_total [OF assms(1,2), of model throws ?thr 0 segs s]
  obtain out s' where run: "assign_from model throws options ?thr 0 segs s = Inr (out, s')"
    and len: "length out = length segs" by blast
  have fb: "\<forall>j<length segs. throws j \<longrightarrow>
                 out ! j = (segs ! j)\<lparr>speaker_id := Some (int j mod max_speakers options),
                                      confidence := Some 0.5\<rparr>"
    using assign_from_fallback [OF assms(1,2) run, of _] by simp
  have iso: "assign_from model (\<lambda>k. False) options ?thr 0 (not_thrown throws 0 segs) s
                 = Inr (not_thrown throws 0 out, s')"
    by (rule assign_from_isolated [OF assms(1,2) run])
  have unfold: "assign_speakers model t options xs s
                  = assign_from model t options ?thr 0 xs s" for t xs
    using assms(3) by (auto simp: assign_speakers_def)
  show ?thesis
    unfolding unfold using run len fb iso by blast
qed

text \<open>
  C6: a segment whose extraction or assignment throws gets \<open>speaker_id = i mod max_speakers\<close>
  and confidence \<open>0.5\<close>, and its failure never aborts the run. The code breaks this for
  \<open>max_speakers = 0\<close>: the handler divides by zero, and the run over a single throwing
  segment ends in that fault instead of a labelled segment.
\<close>

theorem C6_handler_divides_by_zero:
  "assign_speakers demo_model (\<lambda>i. i = 0)
      \<lparr>max_speakers = 0, threshold = 0.5, sample_rate = 16000\<rparr> [demo_segment] new_embedder
     = Inl DivisionByZero"
  by (simp add: assign_speakers_def demo_model_def size_t_of_int_def)

subsection \<open>Threshold validation\<close>

text \<open>
  C8 as stated: the threshold handed to processing equals \<open>min (max t 0.01) 0.8\<close>.
  It fails: a threshold of \<open>0.9\<close> is replaced by \<open>0.7\<close>, not by \<open>0.8\<close>.
\<close>

theorem C8_counterexample:
  "main_validate_threshold (Finite 0.9) = Finite 0.7 \<and> min (max (0.9::real) 0.01) 0.8 = 0.8"
  by (simp add: main_validate_threshold_def float_gt_def float_lt_def)

text \<open>
  C8, amended: a threshold above \<open>0.8\<close> (\<open>+inf\<close> included) is replaced by \<open>0.7\<close>, one
  below \<open>0.01\<close> (\<open>-inf\<close> included) by \<open>0.01\<close>, every other threshold is passed on
  unchanged, a NaN among them since it fails both tests. For every parsed threshold that
  is not a NaN the value handed to processing is therefore a finite number in
  \<open>[0.01, 0.8]\<close>; a NaN reaches processing as it is.
\<close>

theorem C8_validate_threshold:
  "main_validate_threshold t
     = (case t of
          PlusInfinity \<Rightarrow> Finite 0.7
        | MinusInfinity \<Rightarrow> Finite 0.01
        | Finite x \<Rightarrow> Finite (if x > 0.8 then 0.7 else if x < 0.01 then 0.01 else x)
        | NaN \<Rightarrow> NaN)
   \<and> (t \<noteq> NaN \<longrightarrow> (\<exists>r. main_validate_threshold t = Finite r \<and> 0.01 \<le> r \<and> r \<le> 0.8))"
proof -
  let ?r = "case t of PlusInfinity \<Rightarrow> 0.7 | MinusInfinity \<Rightarrow> 0.01
                    | Finite x \<Rightarrow> (if x > 0.8 then 0.7 else if x < 0.01 then 0.01 else x)
                    | NaN \<Rightarrow> 0"
  have first: "main_validate_threshold t
           = (case t of
                PlusInfinity \<Rightarrow> Finite 0.7
              | MinusInfinity \<Rightarrow> Finite 0.01
              | Finite x \<Rightarrow> Finite (if x > 0.8 then 0.7 else if x < 0.01 then 0.01 else x)
              | NaN \<Rightarrow> NaN)"
    by (cases t) (simp_all add: main_validate_threshold_def float_gt_def float_lt_def)
  have second: "\<exists>r. main_validate_threshold t = Finite r \<and> 0.01 \<le> r \<and> r \<le> 0.8"
    if number: "t \<noteq> NaN"
  proof -
    have result: "main_validate_threshold t = Finite ?r"
      using number
      by (cases t) (simp_all add: main_validate_threshold_def float_gt_def float_lt_def)
    have bounds: "0.01 \<le> ?r \<and> ?r \<le> 0.8"
      using number by (cases t) simp_all
    show ?thesis
      using result bounds by (intro exI [of _ ?r] conjI) simp_all
  qed
  show ?thesis
  proof (rule conjI)
    show "main_validate_threshold t
           = (case t of
                PlusInfinity \<Rightarrow> Finite 0.7
              | MinusInfinity \<Rightarrow> Finite 0.01
              | Finite x \<Rightarrow> Finite (if x > 0.8 then 0.7 else if x < 0.01 then 0.01 else x)
              | NaN \<Rightarrow> NaN)"
      by (rule first)
    show "t \<noteq> NaN \<longrightarrow> (\<exists>r. main_validate_threshold t = Finite r \<and> 0.01 \<le> r \<and> r \<le> 0.8)"
      using second by (rule impI)
  qed
qed

text \<open>
  A threshold below the range, one inside it, one above it, \<open>+inf\<close>, and a NaN.
\<close>

theorem C8_validate_threshold_witness:
  "Finite 0.005 \<noteq> NaN
   \<and> main_validate_threshold (Finite 0.005) = Finite 0.01
   \<and> main_validate_threshold (Finite 0.3) = Finite 0.3
   \<and> main_validate_threshold (Finite 2) = Finite 0.7
   \<and> main_validate_threshold PlusInfinity = Finite 0.7
   \<and> main_validate_threshold NaN = NaN"
  using C8_validate_threshold [of "Finite 0.005"] C8_validate_threshold [of "Finite 0.3"]
    C8_validate_threshold [of "Finite 2"] C8_validate_threshold [of PlusInfinity]
    C8_validate_threshold [of NaN]
  by simp
end
